theory Spec2Isabelle
  imports Complex_Main "HOL-Library.Word" "HOL-Library.AList"
begin

section \<open>JavaScript strings\<close>

text \<open>
  A JavaScript string is a sequence of 16-bit code units. \<open>str\<close> embeds an ASCII literal.
\<close>

type_synonym code_unit = "16 word"
type_synonym jsstring = "code_unit list"

definition str :: "string \<Rightarrow> jsstring" where
  "str s = map of_char s"

text \<open>
  The regular-expression class \<open>\s\<close> and the characters removed by \<open>String.prototype.trim\<close>
  coincide: WhiteSpace and LineTerminator of ECMAScript.
\<close>

definition isWhiteSpace :: "code_unit \<Rightarrow> bool" where
  "isWhiteSpace c \<longleftrightarrow>
     c = 0x0009 \<or> c = 0x000A \<or> c = 0x000B \<or> c = 0x000C \<or> c = 0x000D \<or> c = 0x0020 \<or>
     c = 0x00A0 \<or> c = 0x1680 \<or> (0x2000 \<le> c \<and> c \<le> 0x200A) \<or>
     c = 0x2028 \<or> c = 0x2029 \<or> c = 0x202F \<or> c = 0x205F \<or> c = 0x3000 \<or> c = 0xFEFF"

text \<open>\<open>text.replace(/\s+/g, " ")\<close>: every maximal run of white space becomes one space.\<close>

function replace_ws :: "jsstring \<Rightarrow> jsstring" where
  "replace_ws [] = []"
| "replace_ws (c # cs) =
     (if isWhiteSpace c then 0x0020 # replace_ws (dropWhile isWhiteSpace cs)
      else c # replace_ws cs)"
  by pat_completeness auto
termination
  by (relation "measure length") (auto simp: less_Suc_eq_le length_dropWhile_le)

text \<open>\<open>s.trim()\<close>\<close>

definition trim :: "jsstring \<Rightarrow> jsstring" where
  "trim s = rev (dropWhile isWhiteSpace (rev (dropWhile isWhiteSpace s)))"

text \<open>
  \<open>s.split(/\s+/)\<close>: the pieces between maximal runs of white space; a leading or a
  trailing run yields an empty first or last piece, and the result is never empty.
\<close>

function split_ws :: "jsstring \<Rightarrow> jsstring list" where
  "split_ws s =
     (let tok = takeWhile (\<lambda>c. \<not> isWhiteSpace c) s;
          rest = dropWhile (\<lambda>c. \<not> isWhiteSpace c) s
      in if rest = [] then [tok] else tok # split_ws (dropWhile isWhiteSpace rest))"
  by pat_completeness auto
termination
proof (relation "measure length")
  show "wf (measure length)" by simp
next
  fix s :: jsstring and tok rest
  assume r: "rest = dropWhile (\<lambda>c. \<not> isWhiteSpace c) s" and ne: "rest \<noteq> []"
  from ne obtain x xs where xs: "rest = x # xs" by (cases rest) simp_all
  have "isWhiteSpace x" by (metis hd_dropWhile list.sel(1) r ne xs)
  then have "dropWhile isWhiteSpace rest = dropWhile isWhiteSpace xs" using xs by simp
  then have "length (dropWhile isWhiteSpace rest) < length rest"
    using xs by (simp add: less_Suc_eq_le length_dropWhile_le)
  moreover have "length rest \<le> length s" using r by (simp add: length_dropWhile_le)
  ultimately show "(dropWhile isWhiteSpace rest, s) \<in> measure length" by simp
qed

text \<open>
  \<open>s.toLowerCase()\<close> on the ASCII letters. Its callers look the result up in tables keyed
  by lower-case ASCII words. The one code unit outside ASCII that lowers to an ASCII letter is
  U+212A (to k), and the only keys with a k are input types, which the host reports as ASCII
  keywords; so the restriction is not observable there.
\<close>

fun toLowerCase_unit :: "code_unit \<Rightarrow> code_unit" where
  "toLowerCase_unit c = (if 0x41 \<le> c \<and> c \<le> 0x5A then c + 0x20 else c)"

definition toLowerCase :: "jsstring \<Rightarrow> jsstring" where
  "toLowerCase s = map toLowerCase_unit s"

text \<open>The decimal digits of a counter value, as a template literal prints them.\<close>

fun decimal :: "nat \<Rightarrow> jsstring" where
  "decimal n =
     (if n < 10 then [of_nat (48 + n)] else decimal (n div 10) @ [of_nat (48 + n mod 10)])"

text \<open>\<open>normalizeWhitespace\<close> (aria-snapshot.ts).\<close>

definition normalizeWhitespace :: "jsstring \<Rightarrow> jsstring" where
  "normalizeWhitespace text = trim (replace_ws text)"

text \<open>
  A string is compact when its only white-space code units are single spaces, no two of
  them adjacent.
\<close>

fun compact :: "jsstring \<Rightarrow> bool" where
  "compact [] = True"
| "compact [c] = (isWhiteSpace c \<longrightarrow> c = 0x0020)"
| "compact (c # d # cs) =
     ((isWhiteSpace c \<longrightarrow> c = 0x0020 \<and> \<not> isWhiteSpace d) \<and> compact (d # cs))"

section \<open>Protocol types (protocol.ts)\<close>

datatype ErrorCode =
    ELEMENT_NOT_FOUND | ELEMENT_AMBIGUOUS | TIMEOUT | NO_TAB | NAVIGATION_FAILED
  | INVALID_REQUEST | INTERNAL_ERROR

text \<open>
  The selector union: \<open>{ ref }\<close>, \<open>{ css }\<close>, \<open>{ role, name? }\<close>. The server validates a
  request against the union schema before it is sent, so a selector carries the fields of
  one alternative only.
\<close>

datatype ElementSelector =
    Ref jsstring
  | Css jsstring
  | Role jsstring "jsstring option"

text \<open>
  Error messages: a fixed text, or one of the templates of the source with the values it
  interpolates.
\<close>

datatype message =
    Text string
  | NoElementFound ElementSelector
  | MultipleElementsFound nat ElementSelector
  | UnknownAction jsstring
  | TimedOutAfter nat

text \<open>
  What a function of the content script can throw: \<open>new Error(JSON.stringify({code, message}))\<close>
  is \<open>CodedError\<close>, \<open>new Error(message)\<close> is \<open>PlainError\<close>, and \<open>TypeError\<close> and
  \<open>SyntaxError\<close> are raised by the JavaScript engine and the page's selector engine.
\<close>

datatype exn =
    CodedError ErrorCode message
  | PlainError message
  | TypeError string
  | SyntaxError string

record AriaElement =
  ref :: jsstring
  role :: jsstring
  name :: jsstring
  states :: jsstring

record AriaSnapshot =
  snapshot_url :: jsstring
  snapshot_title :: jsstring
  elements :: "AriaElement list"

section \<open>The page\<close>

text \<open>
  A node of the live page is an opaque handle; the page maps it to what the code reads
  from it. \<open>interface\<close> records which \<open>instanceof\<close> tests the node passes (the first four
  are HTMLElements), \<open>type_property\<close> is the node's \<open>type\<close> property when it has one that
  is a string (inputs, buttons, anchors, ...) and \<open>None\<close> when the property is undefined
  (\<open>div\<close>, \<open>body\<close>, headings, ...).
\<close>

type_synonym handle = nat

datatype interface =
    HTMLInputElement | HTMLTextAreaElement | HTMLSelectElement | HTMLElement | OtherElement

record node =
  isElementNode :: bool
  interface :: interface
  tagName :: jsstring
  attributes :: "(jsstring \<times> jsstring) list"
  type_property :: "jsstring option"
  childNodes :: "handle list"
  shadowRoot :: "handle list option"
  assignedSlot :: bool
  assignedNodes :: "handle list"
  style_display :: jsstring
  style_visibility :: jsstring
  rect_width :: real
  rect_height :: real
  textContent :: jsstring
  labels :: "handle list"
  node_value :: jsstring
  option_values :: "jsstring list"
  isContentEditable :: bool

text \<open>What an interaction does to the page, in the order it happens.\<close>

datatype effect =
    ScrollIntoView handle
  | Focus handle
  | DispatchEvent handle string
  | NativeClick handle
  | KeyEvent "handle" string jsstring

text \<open>
  The page: its nodes and the queries the host answers. \<open>querySelectorAll\<close> raises
  \<open>SyntaxError\<close> on a pattern that is not a selector; \<open>treeWalker\<close> is the sequence a
  TreeWalker over \<open>document.body\<close> showing elements yields, the body first.
  \<open>accessibleName\<close> and \<open>ariaStates\<close> stand for the values \<open>getAccessibleName(element)\<close>
  and \<open>getAriaStates(element, role)\<close> of aria-snapshot.ts, which read the page only.
\<close>

record page =
  nodes :: "handle \<Rightarrow> node"
  body :: "handle option"
  getElementById :: "jsstring \<Rightarrow> handle option"
  querySelectorAll :: "jsstring \<Rightarrow> exn + handle list"
  treeWalker :: "handle list"
  activeElement :: "handle option"
  location_href :: jsstring
  document_title :: jsstring
  accessibleName :: "handle \<Rightarrow> jsstring"
  ariaStates :: "handle \<Rightarrow> jsstring \<Rightarrow> jsstring"
  effects :: "effect list"

definition getAttribute :: "node \<Rightarrow> string \<Rightarrow> jsstring option" where
  "getAttribute n a = map_of (attributes n) (str a)"

definition hasAttribute :: "node \<Rightarrow> string \<Rightarrow> bool" where
  "hasAttribute n a \<longleftrightarrow> getAttribute n a \<noteq> None"

text \<open>JavaScript truthiness of a value that is a string, null or undefined.\<close>

fun truthy :: "jsstring option \<Rightarrow> bool" where
  "truthy None = False"
| "truthy (Some s) = (s \<noteq> [])"

definition isHTMLElement :: "node \<Rightarrow> bool" where
  "isHTMLElement n \<longleftrightarrow> interface n \<noteq> OtherElement"

section \<open>Roles for the snapshot (aria-snapshot.ts)\<close>

text \<open>
  \<open>getInputRole\<close>. \<open>input.type.toLowerCase()\<close> raises TypeError when the node has no
  \<open>type\<close> property.
\<close>

definition typeRoles :: "(jsstring \<times> jsstring) list" where
  "typeRoles =
    [(str ''button'', str ''button''), (str ''checkbox'', str ''checkbox''),
     (str ''radio'', str ''radio''), (str ''text'', str ''textbox''),
     (str ''email'', str ''textbox''), (str ''password'', str ''textbox''),
     (str ''search'', str ''searchbox''), (str ''tel'', str ''textbox''),
     (str ''url'', str ''textbox''), (str ''number'', str ''spinbutton''),
     (str ''range'', str ''slider'')]"

definition getInputRole :: "node \<Rightarrow> exn + jsstring" where
  "getInputRole input =
     (case type_property input of
        None \<Rightarrow> Inl (TypeError ''Cannot read properties of undefined (reading toLowerCase)'')
      | Some t \<Rightarrow>
          Inr (case map_of typeRoles (toLowerCase t) of
                 Some r \<Rightarrow> r
               | None \<Rightarrow> str ''textbox''))"

text \<open>
  The table \<open>implicitRoles\<close> of \<open>getAriaRole\<close>, with the role of the \<open>input\<close> entry already
  computed: the object literal evaluates \<open>getInputRole(element)\<close> for every element, whatever
  its tag.
\<close>

definition implicitRoles :: "node \<Rightarrow> jsstring \<Rightarrow> (jsstring \<times> jsstring option) list" where
  "implicitRoles element inputRole =
    [(str ''a'', if hasAttribute element ''href'' then Some (str ''link'') else None),
     (str ''button'', Some (str ''button'')),
     (str ''input'', Some inputRole),
     (str ''textarea'', Some (str ''textbox'')),
     (str ''select'',
        if hasAttribute element ''multiple'' then Some (str ''listbox'') else Some (str ''combobox'')),
     (str ''h1'', Some (str ''heading'')), (str ''h2'', Some (str ''heading'')),
     (str ''h3'', Some (str ''heading'')), (str ''h4'', Some (str ''heading'')),
     (str ''h5'', Some (str ''heading'')), (str ''h6'', Some (str ''heading'')),
     (str ''img'', if hasAttribute element ''alt'' then Some (str ''img'') else None),
     (str ''nav'', Some (str ''navigation'')), (str ''main'', Some (str ''main'')),
     (str ''header'', Some (str ''banner'')), (str ''footer'', Some (str ''contentinfo'')),
     (str ''aside'', Some (str ''complementary'')), (str ''section'', Some (str ''region'')),
     (str ''article'', Some (str ''article'')), (str ''form'', Some (str ''form'')),
     (str ''table'', Some (str ''table'')), (str ''ul'', Some (str ''list'')),
     (str ''ol'', Some (str ''list'')), (str ''li'', Some (str ''listitem'')),
     (str ''dialog'', Some (str ''dialog'')), (str ''td'', Some (str ''cell'')),
     (str ''th'', Some (str ''columnheader''))]"

text \<open>\<open>table[key] || null\<close>: an absent key, a null and an empty string all give null.\<close>

definition lookup_or_null :: "(jsstring \<times> jsstring option) list \<Rightarrow> jsstring \<Rightarrow> jsstring option" where
  "lookup_or_null table key =
     (case map_of table key of
        Some (Some r) \<Rightarrow> (if r = [] then None else Some r)
      | _ \<Rightarrow> None)"

text \<open>
  \<open>getAriaRole\<close>: an explicit role attribute wins and gives the first piece of
  \<open>split(/\s+/)\<close>; otherwise the tag decides.
\<close>

definition getAriaRole :: "node \<Rightarrow> exn + jsstring option" where
  "getAriaRole element =
     (let explicitRole = getAttribute element ''role'' in
      if truthy explicitRole then
        (case explicitRole of
           Some r \<Rightarrow> (case split_ws r of piece # _ \<Rightarrow> Inr (Some piece) | [] \<Rightarrow> Inr None)
         | None \<Rightarrow> Inr None)
      else
        (case getInputRole element of
           Inl e \<Rightarrow> Inl e
         | Inr inputRole \<Rightarrow>
             Inr (lookup_or_null (implicitRoles element inputRole) (toLowerCase (tagName element)))))"

section \<open>Roles and names for selector resolution (interactions.ts)\<close>

definition typeRoles_interactions :: "(jsstring \<times> jsstring) list" where
  "typeRoles_interactions =
    [(str ''button'', str ''button''), (str ''checkbox'', str ''checkbox''),
     (str ''radio'', str ''radio''), (str ''search'', str ''searchbox'')]"

definition getInputRole_interactions :: "node \<Rightarrow> exn + jsstring" where
  "getInputRole_interactions input =
     (case type_property input of
        None \<Rightarrow> Inl (TypeError ''Cannot read properties of undefined (reading toLowerCase)'')
      | Some t \<Rightarrow>
          Inr (case map_of typeRoles_interactions (toLowerCase t) of
                 Some r \<Rightarrow> r
               | None \<Rightarrow> str ''textbox''))"

definition implicitRoles_interactions :: "jsstring \<Rightarrow> (jsstring \<times> jsstring option) list" where
  "implicitRoles_interactions inputRole =
    [(str ''button'', Some (str ''button'')),
     (str ''a'', Some (str ''link'')),
     (str ''input'', Some inputRole),
     (str ''textarea'', Some (str ''textbox'')),
     (str ''select'', Some (str ''combobox'')),
     (str ''h1'', Some (str ''heading'')), (str ''h2'', Some (str ''heading'')),
     (str ''h3'', Some (str ''heading'')), (str ''h4'', Some (str ''heading'')),
     (str ''h5'', Some (str ''heading'')), (str ''h6'', Some (str ''heading''))]"

text \<open>
  \<open>getElementRole\<close>: an explicit role attribute is returned as it is written; the
  \<open>input\<close> entry asks \<open>getInputRole\<close> only for an HTMLInputElement.
\<close>

definition getElementRole :: "node \<Rightarrow> exn + jsstring option" where
  "getElementRole element =
     (let explicitRole = getAttribute element ''role'' in
      if truthy explicitRole then Inr explicitRole
      else
        (case (if interface element = HTMLInputElement then getInputRole_interactions element
               else Inr (str ''textbox'')) of
           Inl e \<Rightarrow> Inl e
         | Inr inputRole \<Rightarrow>
             Inr (lookup_or_null (implicitRoles_interactions inputRole)
                    (toLowerCase (tagName element)))))"

section \<open>The reference table (aria-snapshot.ts)\<close>

text \<open>
  The module state: \<open>elementRefCounter\<close> and the WeakMap \<open>elementRefMap\<close> from elements to
  tokens. A WeakMap is keyed by object identity, here the handle.
\<close>

record refs =
  elementRefCounter :: nat
  elementRefMap :: "handle \<Rightarrow> jsstring option"

definition mintRef :: "handle \<Rightarrow> refs \<Rightarrow> jsstring \<times> refs" where
  "mintRef el st =
     (let c = elementRefCounter st + 1;
          r = str ''e'' @ decimal c
      in (r, st\<lparr>elementRefCounter := c, elementRefMap := (elementRefMap st)(el \<mapsto> r)\<rparr>))"

definition getOrCreateRef :: "handle \<Rightarrow> refs \<Rightarrow> jsstring \<times> refs" where
  "getOrCreateRef el st =
     (case elementRefMap st el of
        Some r \<Rightarrow> if r \<noteq> [] then (r, st) else mintRef el st
      | None \<Rightarrow> mintRef el st)"

text \<open>
  \<open>elementRefMap.entries()\<close>. A WeakMap has the methods \<open>get\<close>, \<open>set\<close>, \<open>has\<close> and
  \<open>delete\<close>; it cannot be enumerated, its property \<open>entries\<close> is undefined, and the call
  raises TypeError before the loop of \<open>findElementByRef\<close> is entered.
\<close>

definition WeakMap_entries :: "(handle \<Rightarrow> jsstring option) \<Rightarrow> exn + (handle \<times> jsstring) list" where
  "WeakMap_entries m = Inl (TypeError ''elementRefMap.entries is not a function'')"

text \<open>The loop of \<open>findElementByRef\<close> over a sequence of entries.\<close>

fun firstWithRef :: "(handle \<times> jsstring) list \<Rightarrow> jsstring \<Rightarrow> handle option" where
  "firstWithRef [] r = None"
| "firstWithRef ((el, elementRef) # rest) r =
     (if elementRef = r then Some el else firstWithRef rest r)"

definition findElementByRef :: "refs \<Rightarrow> jsstring \<Rightarrow> exn + handle option" where
  "findElementByRef st r =
     (case WeakMap_entries (elementRefMap st) of
        Inl e \<Rightarrow> Inl e
      | Inr entries \<Rightarrow> Inr (firstWithRef entries r))"

section \<open>The snapshot walk (aria-snapshot.ts)\<close>

definition isHidden :: "node \<Rightarrow> bool" where
  "isHidden el \<longleftrightarrow>
     getAttribute el ''aria-hidden'' = Some (str ''true'') \<or>
     style_display el = str ''none'' \<or> style_visibility el = str ''hidden'' \<or>
     (rect_width el = 0 \<and> rect_height el = 0)"

definition interactiveRoles :: "jsstring list" where
  "interactiveRoles =
    [str ''button'', str ''link'', str ''textbox'', str ''checkbox'', str ''radio'',
     str ''combobox'', str ''searchbox'', str ''slider'', str ''spinbutton'',
     str ''menuitem'', str ''menuitemcheckbox'', str ''menuitemradio'',
     str ''tab'', str ''switch'', str ''option'', str ''treeitem'']"

definition structuralRoles :: "jsstring list" where
  "structuralRoles =
    [str ''heading'', str ''navigation'', str ''main'', str ''banner'', str ''contentinfo'',
     str ''complementary'', str ''region'', str ''article'', str ''form'', str ''search'']"

definition shouldIncludeElement :: "jsstring \<Rightarrow> node \<Rightarrow> bool" where
  "shouldIncludeElement r el \<longleftrightarrow>
     r \<in> set interactiveRoles \<or> r \<in> set structuralRoles \<or>
     (r = str ''img'' \<and> truthy (getAttribute el ''alt''))"

definition getChildren :: "page \<Rightarrow> node \<Rightarrow> handle list" where
  "getChildren pg el =
     (if tagName el = str ''SLOT'' \<and> assignedNodes el \<noteq> [] then assignedNodes el
      else filter (\<lambda>child. \<not> assignedSlot (nodes pg child)) (childNodes el) @
           (case shadowRoot el of Some cs \<Rightarrow> cs | None \<Rightarrow> []))"

text \<open>
  The elements \<open>aria-owns\<close> names: each non-empty piece of the attribute that
  \<open>document.getElementById\<close> finds, in order.
\<close>

definition ownedElements :: "page \<Rightarrow> node \<Rightarrow> handle list" where
  "ownedElements pg el =
     (case getAttribute el ''aria-owns'' of
        None \<Rightarrow> []
      | Some owns \<Rightarrow>
          if owns = [] then []
          else List.map_filter (\<lambda>i. if i = [] then None else getElementById pg i)
                 (split_ws owns))"

text \<open>
  A row of the snapshot, kept with the handle it was made from. The handle is not sent to
  the caller; it is there to say which element a row is about.
\<close>

type_synonym rows = "(handle \<times> AriaElement) list"

text \<open>
  A computation on the reference table returns the table with its result: what was
  written before an exception stays written.
\<close>

type_synonym 'a computation = "((exn + 'a) \<times> refs) option"

fun walkEach ::
  "(handle \<Rightarrow> rows \<Rightarrow> refs \<Rightarrow> rows computation) \<Rightarrow> handle list \<Rightarrow> rows \<Rightarrow> refs \<Rightarrow> rows computation"
where
  "walkEach walk [] els st = Some (Inr els, st)"
| "walkEach walk (child # rest) els st =
     (case walk child els st of
        None \<Rightarrow> None
      | Some (Inl e, st') \<Rightarrow> Some (Inl e, st')
      | Some (Inr els', st') \<Rightarrow> walkEach walk rest els' st')"

text \<open>
  \<open>walkAriaTree\<close>. The recursion follows children, shadow trees and \<open>aria-owns\<close>, which can
  lead back to an ancestor, so it need not end: the first argument bounds the depth of the
  calls, and \<open>None\<close> says that the bound was reached.
\<close>

fun walkAriaTree :: "nat \<Rightarrow> page \<Rightarrow> handle \<Rightarrow> rows \<Rightarrow> refs \<Rightarrow> rows computation" where
  "walkAriaTree 0 pg nd els st = None"
| "walkAriaTree (Suc depth) pg nd els st =
     (let el = nodes pg nd in
      if \<not> isElementNode el then Some (Inr els, st)
      else if isHidden el then Some (Inr els, st)
      else
        (case getAriaRole el of
           Inl e \<Rightarrow> Some (Inl e, st)
         | Inr r \<Rightarrow>
             (let (els1, st1) =
                (case r of
                   None \<Rightarrow> (els, st)
                 | Some rl \<Rightarrow>
                     if rl \<noteq> [] \<and> shouldIncludeElement rl el then
                       (let (rf, st') = getOrCreateRef nd st in
                        (els @ [(nd, \<lparr>ref = rf, role = rl, name = accessibleName pg nd,
                                       states = ariaStates pg nd rl\<rparr>)], st'))
                     else (els, st))
              in case walkEach (\<lambda>c a s. walkAriaTree depth pg c a s) (getChildren pg el) els1 st1 of
                   None \<Rightarrow> None
                 | Some (Inl e, st2) \<Rightarrow> Some (Inl e, st2)
                 | Some (Inr els2, st2) \<Rightarrow>
                     walkEach (\<lambda>c a s. walkAriaTree depth pg c a s) (ownedElements pg el) els2 st2)))"

text \<open>\<open>generateAriaSnapshot\<close>, with the rows still carrying their handles.\<close>

definition snapshotRows :: "nat \<Rightarrow> page \<Rightarrow> refs \<Rightarrow> rows computation" where
  "snapshotRows depth pg st =
     (let st0 = st\<lparr>elementRefCounter := 0\<rparr> in
      case body pg of
        None \<Rightarrow> Some (Inr [], st0)
      | Some b \<Rightarrow> walkAriaTree depth pg b [] st0)"

definition generateAriaSnapshot :: "nat \<Rightarrow> page \<Rightarrow> refs \<Rightarrow> AriaSnapshot computation" where
  "generateAriaSnapshot depth pg st =
     (case snapshotRows depth pg st of
        None \<Rightarrow> None
      | Some (Inl e, st') \<Rightarrow> Some (Inl e, st')
      | Some (Inr els, st') \<Rightarrow>
          Some (Inr \<lparr>snapshot_url = location_href pg, snapshot_title = document_title pg,
                     elements = map snd els\<rparr>, st'))"

section \<open>Selector resolution (interactions.ts)\<close>

text \<open>\<open>getAccessibleName\<close> of interactions.ts.\<close>

definition getAccessibleName_interactions :: "page \<Rightarrow> node \<Rightarrow> jsstring" where
  "getAccessibleName_interactions pg el =
     (let ariaLabel = getAttribute el ''aria-label'';
          placeholder = getAttribute el ''placeholder'';
          formControl = (interface el = HTMLInputElement \<or> interface el = HTMLTextAreaElement)
      in if truthy ariaLabel then
           (case ariaLabel of Some l \<Rightarrow> trim l | None \<Rightarrow> [])
         else if formControl \<and> labels el \<noteq> [] then
           (case labels el of lb # _ \<Rightarrow> trim (textContent (nodes pg lb)) | [] \<Rightarrow> [])
         else if formControl \<and> truthy placeholder then
           (case placeholder of Some p \<Rightarrow> trim p | None \<Rightarrow> [])
         else trim (textContent el))"

text \<open>
  The loop of \<open>findByRole\<close> over the nodes the TreeWalker yields: an element is kept when
  its role is the one asked for and, if a name is asked for, its name is that name.
\<close>

fun findByRole_loop ::
  "page \<Rightarrow> handle list \<Rightarrow> jsstring \<Rightarrow> jsstring option \<Rightarrow> handle list \<Rightarrow> exn + handle list"
where
  "findByRole_loop pg [] rl nm els = Inr els"
| "findByRole_loop pg (nd # rest) rl nm els =
     (case getElementRole (nodes pg nd) of
        Inl e \<Rightarrow> Inl e
      | Inr elementRole \<Rightarrow>
          if elementRole = Some rl \<and>
             (case nm of None \<Rightarrow> True
                       | Some n \<Rightarrow> getAccessibleName_interactions pg (nodes pg nd) = n)
          then findByRole_loop pg rest rl nm (els @ [nd])
          else findByRole_loop pg rest rl nm els)"

text \<open>\<open>findByRole\<close>. \<open>createTreeWalker\<close> raises TypeError when the document has no body.\<close>

definition findByRole :: "page \<Rightarrow> jsstring \<Rightarrow> jsstring option \<Rightarrow> exn + handle list" where
  "findByRole pg rl nm =
     (case body pg of
        None \<Rightarrow> Inl (TypeError ''createTreeWalker: parameter 1 is not of type Node'')
      | Some b \<Rightarrow> findByRole_loop pg (treeWalker pg) rl nm [])"

text \<open>
  The first half of \<open>findElement\<close>: the candidates of the one strategy the selector names.
\<close>

fun candidates :: "page \<Rightarrow> refs \<Rightarrow> ElementSelector \<Rightarrow> exn + handle list" where
  "candidates pg st (Ref r) =
     (case findElementByRef st r of
        Inl e \<Rightarrow> Inl e
      | Inr (Some el) \<Rightarrow> Inr [el]
      | Inr None \<Rightarrow> Inr [])"
| "candidates pg st (Css c) = querySelectorAll pg c"
| "candidates pg st (Role rl nm) = findByRole pg rl nm"

text \<open>\<open>findElement\<close>.\<close>

definition findElement :: "page \<Rightarrow> refs \<Rightarrow> ElementSelector \<Rightarrow> exn + handle" where
  "findElement pg st selector =
     (case candidates pg st selector of
        Inl e \<Rightarrow> Inl e
      | Inr [] \<Rightarrow> Inl (CodedError ELEMENT_NOT_FOUND (NoElementFound selector))
      | Inr [el] \<Rightarrow> Inr el
      | Inr (el # el' # others) \<Rightarrow>
          Inl (CodedError ELEMENT_AMBIGUOUS
                 (MultipleElementsFound (length (el # el' # others)) selector)))"

text \<open>
  The rule of the specification, in its words: zero matches is NOT_FOUND, more than one is
  AMBIGUOUS, and exactly one match is the element returned.
\<close>

definition exactly_one_or_fail :: "ElementSelector \<Rightarrow> handle list \<Rightarrow> exn + handle" where
  "exactly_one_or_fail selector matches =
     (if length matches = 0 then Inl (CodedError ELEMENT_NOT_FOUND (NoElementFound selector))
      else if length matches > 1 then
        Inl (CodedError ELEMENT_AMBIGUOUS (MultipleElementsFound (length matches) selector))
      else Inr (matches ! 0))"

text \<open>
  An element matches a role selector when its role is the role asked for and, if a name is
  given, its accessible name is that name.
\<close>

definition matchesRole :: "page \<Rightarrow> jsstring \<Rightarrow> jsstring option \<Rightarrow> handle \<Rightarrow> bool" where
  "matchesRole pg rl nm nd \<longleftrightarrow>
     getElementRole (nodes pg nd) = Inr (Some rl) \<and>
     (case nm of None \<Rightarrow> True
               | Some n \<Rightarrow> getAccessibleName_interactions pg (nodes pg nd) = n)"

section \<open>Interactions (interactions.ts)\<close>

text \<open>
  An interaction returns the page it leaves behind, also when it throws. The events it
  dispatches are appended to \<open>effects\<close>; what the page's own listeners do with them is not
  part of this code. The settle delay \<open>waitForStability\<close> changes nothing.
\<close>

type_synonym 'a interaction = "(exn + 'a) \<times> page"

definition perform :: "effect \<Rightarrow> page \<Rightarrow> page" where
  "perform e pg = pg\<lparr>effects := effects pg @ [e]\<rparr>"

definition ensureVisible :: "handle \<Rightarrow> page \<Rightarrow> page" where
  "ensureVisible el pg =
     (if isHTMLElement (nodes pg el) then perform (ScrollIntoView el) pg else pg)"

definition setValue :: "handle \<Rightarrow> jsstring \<Rightarrow> page \<Rightarrow> page" where
  "setValue el v pg = pg\<lparr>nodes := (nodes pg)(el := (nodes pg el)\<lparr>node_value := v\<rparr>)\<rparr>"

text \<open>
  Assigning \<open>value\<close> on a select element selects the first option with that value, and
  leaves the element without a selected option (value the empty string) when there is none.
\<close>

definition setSelectValue :: "handle \<Rightarrow> jsstring \<Rightarrow> page \<Rightarrow> page" where
  "setSelectValue el v pg =
     setValue el (if v \<in> set (option_values (nodes pg el)) then v else []) pg"

definition setTextContent :: "handle \<Rightarrow> jsstring \<Rightarrow> page \<Rightarrow> page" where
  "setTextContent el v pg = pg\<lparr>nodes := (nodes pg)(el := (nodes pg el)\<lparr>textContent := v\<rparr>)\<rparr>"

definition click :: "ElementSelector \<Rightarrow> refs \<Rightarrow> page \<Rightarrow> unit interaction" where
  "click selector st pg =
     (case findElement pg st selector of
        Inl e \<Rightarrow> (Inl e, pg)
      | Inr el \<Rightarrow>
          (let pg1 = ensureVisible el pg;
               pg2 = perform (DispatchEvent el ''mousedown'') pg1;
               pg3 = perform (DispatchEvent el ''mouseup'') pg2;
               pg4 = perform (DispatchEvent el ''click'') pg3;
               pg5 = (if isHTMLElement (nodes pg4 el) then perform (NativeClick el) pg4 else pg4)
           in (Inr (), pg5)))"

definition typeText :: "ElementSelector \<Rightarrow> jsstring \<Rightarrow> refs \<Rightarrow> page \<Rightarrow> unit interaction" where
  "typeText selector txt st pg =
     (case findElement pg st selector of
        Inl e \<Rightarrow> (Inl e, pg)
      | Inr el \<Rightarrow>
          (let pg1 = ensureVisible el pg;
               pg2 = (if isHTMLElement (nodes pg1 el) then perform (Focus el) pg1 else pg1);
               pg3 =
                 (if interface (nodes pg2 el) = HTMLInputElement \<or>
                     interface (nodes pg2 el) = HTMLTextAreaElement
                  then perform (DispatchEvent el ''change'')
                         (perform (DispatchEvent el ''input'') (setValue el txt pg2))
                  else if isHTMLElement (nodes pg2 el) \<and> isContentEditable (nodes pg2 el)
                  then setTextContent el txt pg2
                  else pg2)
           in (Inr (), pg3)))"

definition hover :: "ElementSelector \<Rightarrow> refs \<Rightarrow> page \<Rightarrow> unit interaction" where
  "hover selector st pg =
     (case findElement pg st selector of
        Inl e \<Rightarrow> (Inl e, pg)
      | Inr el \<Rightarrow>
          (let pg1 = ensureVisible el pg;
               pg2 = perform (DispatchEvent el ''mouseover'') pg1;
               pg3 = perform (DispatchEvent el ''mouseenter'') pg2;
               pg4 = perform (DispatchEvent el ''mousemove'') pg3
           in (Inr (), pg4)))"

definition select :: "ElementSelector \<Rightarrow> jsstring \<Rightarrow> refs \<Rightarrow> page \<Rightarrow> unit interaction" where
  "select selector v st pg =
     (case findElement pg st selector of
        Inl e \<Rightarrow> (Inl e, pg)
      | Inr el \<Rightarrow>
          if interface (nodes pg el) \<noteq> HTMLSelectElement then
            (Inl (CodedError INVALID_REQUEST (Text ''Select action requires a <select> element'')),
             pg)
          else
            (let pg1 = ensureVisible el pg;
                 pg2 = setSelectValue el v pg1;
                 pg3 = perform (DispatchEvent el ''change'') pg2
             in (Inr (), pg3)))"

text \<open>
  \<open>press\<close>. The target is \<open>document.activeElement || document.body\<close>; with neither, the
  first \<open>dispatchEvent\<close> raises TypeError.
\<close>

definition press :: "jsstring \<Rightarrow> page \<Rightarrow> unit interaction" where
  "press k pg =
     (case (case activeElement pg of Some a \<Rightarrow> Some a | None \<Rightarrow> body pg) of
        None \<Rightarrow>
          (Inl (TypeError ''Cannot read properties of null (reading dispatchEvent)''), pg)
      | Some target \<Rightarrow>
          (let pg1 = perform (KeyEvent target ''keydown'' k) pg;
               pg2 = perform (KeyEvent target ''keypress'' k) pg1;
               pg3 = perform (KeyEvent target ''keyup'' k) pg2
           in (Inr (), pg3)))"

section \<open>The content script\<close>

record InteractParams =
  p_action :: jsstring
  p_element :: "ElementSelector option"
  p_text :: "jsstring option"
  p_key :: "jsstring option"
  p_value :: "jsstring option"
  p_snapshot :: "bool option"

record InteractResult =
  success :: bool
  result_url :: "jsstring option"
  result_title :: "jsstring option"
  result_elements :: "AriaElement list option"

text \<open>
  The switch of \<open>handleInteract\<close>: the parameter checks and the interaction. \<open>!text\<close> holds
  for an absent text and for the empty string alike.
\<close>

definition performAction :: "InteractParams \<Rightarrow> refs \<Rightarrow> page \<Rightarrow> unit interaction" where
  "performAction params st pg =
     (if p_action params = str ''click'' then
        (case p_element params of
           None \<Rightarrow> (Inl (PlainError (Text ''Element selector required for click action'')), pg)
         | Some sel \<Rightarrow> click sel st pg)
      else if p_action params = str ''type'' then
        (case (p_element params, p_text params) of
           (Some sel, Some txt) \<Rightarrow>
             if txt \<noteq> [] then typeText sel txt st pg
             else (Inl (PlainError (Text ''Element selector and text required for type action'')), pg)
         | _ \<Rightarrow> (Inl (PlainError (Text ''Element selector and text required for type action'')), pg))
      else if p_action params = str ''hover'' then
        (case p_element params of
           None \<Rightarrow> (Inl (PlainError (Text ''Element selector required for hover action'')), pg)
         | Some sel \<Rightarrow> hover sel st pg)
      else if p_action params = str ''select'' then
        (case (p_element params, p_value params) of
           (Some sel, Some v) \<Rightarrow>
             if v \<noteq> [] then select sel v st pg
             else (Inl (PlainError (Text ''Element selector and value required for select action'')), pg)
         | _ \<Rightarrow> (Inl (PlainError (Text ''Element selector and value required for select action'')), pg))
      else if p_action params = str ''press'' then
        (case p_key params of
           Some k \<Rightarrow>
             if k \<noteq> [] then press k pg
             else (Inl (PlainError (Text ''Key required for press action'')), pg)
         | None \<Rightarrow> (Inl (PlainError (Text ''Key required for press action'')), pg))
      else (Inl (PlainError (UnknownAction (p_action params))), pg))"

text \<open>
  \<open>handleInteract\<close>: the action, then the optional snapshot. The result comes with the page
  and the reference table as the call leaves them; \<open>None\<close> is a snapshot walk that does
  not end within the given depth.
\<close>

definition handleInteract ::
  "nat \<Rightarrow> InteractParams \<Rightarrow> refs \<Rightarrow> page \<Rightarrow> ((exn + InteractResult) \<times> page \<times> refs) option"
where
  "handleInteract depth params st pg =
     (case performAction params st pg of
        (Inl e, pg') \<Rightarrow> Some (Inl e, pg', st)
      | (Inr _, pg') \<Rightarrow>
          if p_snapshot params = Some True then
            (case generateAriaSnapshot depth pg' st of
               None \<Rightarrow> None
             | Some (Inl e, st') \<Rightarrow> Some (Inl e, pg', st')
             | Some (Inr snap, st') \<Rightarrow>
                 Some (Inr \<lparr>success = True, result_url = Some (snapshot_url snap),
                            result_title = Some (snapshot_title snap),
                            result_elements = Some (elements snap)\<rparr>, pg', st'))
          else
            Some (Inr \<lparr>success = True, result_url = None, result_title = None,
                       result_elements = None\<rparr>, pg', st))"

text \<open>
  The catch block of \<open>handleMessage\<close>: the error code is INTERNAL_ERROR unless the message
  of the error parses as JSON with a code and a message, which is so for the errors that
  interactions.ts builds with \<open>JSON.stringify\<close>, and for no other error raised here.
\<close>

fun errorResponse :: "exn \<Rightarrow> ErrorCode \<times> message" where
  "errorResponse (CodedError c m) = (c, m)"
| "errorResponse (PlainError m) = (INTERNAL_ERROR, m)"
| "errorResponse (TypeError m) = (INTERNAL_ERROR, Text m)"
| "errorResponse (SyntaxError m) = (INTERNAL_ERROR, Text m)"

datatype InternalResponse =
    InteractSuccess InteractResult
  | Failure ErrorCode message

text \<open>\<open>handleMessage\<close> on a message of type INTERACT: the response sent to the background.\<close>

definition handleMessage_INTERACT ::
  "nat \<Rightarrow> InteractParams \<Rightarrow> refs \<Rightarrow> page \<Rightarrow> (InternalResponse \<times> page \<times> refs) option"
where
  "handleMessage_INTERACT depth params st pg =
     (case handleInteract depth params st pg of
        None \<Rightarrow> None
      | Some (Inl e, pg', st') \<Rightarrow>
          Some (case errorResponse e of (c, m) \<Rightarrow> Failure c m, pg', st')
      | Some (Inr result, pg', st') \<Rightarrow> Some (InteractSuccess result, pg', st'))"

section \<open>The RPC session of the server (context.ts, index.ts)\<close>

type_synonym json = jsstring

record JsonRpcRequest =
  req_id :: string
  req_method :: string
  req_params :: json

record JsonRpcResponse =
  resp_id :: string
  resp_result :: "json option"
  resp_error :: "(ErrorCode \<times> message) option"

text \<open>How the promise of a call is settled: with a result, or with an Error and its code.\<close>

datatype settlement =
    Resolved "json option"
  | Rejected "ErrorCode option" message

text \<open>
  The state of a Context and of what it runs on. A call is known by the number \<open>calls\<close>
  had when it was made; that number stands for its promise, its \<open>resolve\<close> and \<open>reject\<close>
  and its timer. \<open>pendingRequests\<close> is the Map from correlation ids to these, in insertion
  order. A timer holds the call, the time it is due, and the id and delay its callback has
  captured. A socket is a number; \<open>socket_open\<close> and \<open>socket_sent\<close> tell whether it is open
  and what was sent over it.
\<close>

record Context =
  ws :: "nat option"
  pendingRequests :: "(string \<times> nat) list"
  clock :: nat
  timers :: "(nat \<times> nat \<times> string \<times> nat) list"
  promises :: "nat \<Rightarrow> settlement option"
  calls :: nat
  socket_open :: "nat \<Rightarrow> bool"
  socket_sent :: "nat \<Rightarrow> JsonRpcRequest list"

definition noConnectionMessage :: string where
  "noConnectionMessage = ''No connection to browser extension. In order to proceed, you must first connect a tab by clicking the Browser MCP extension icon in the browser toolbar and clicking the 'Connect' button.''"

text \<open>A promise is settled once; settling it again changes nothing.\<close>

definition settle :: "nat \<Rightarrow> settlement \<Rightarrow> Context \<Rightarrow> Context" where
  "settle h out s =
     (case promises s h of
        None \<Rightarrow> s\<lparr>promises := (promises s)(h := Some out)\<rparr>
      | Some _ \<Rightarrow> s)"

definition clearTimeout :: "nat \<Rightarrow> Context \<Rightarrow> Context" where
  "clearTimeout h s = s\<lparr>timers := filter (\<lambda>(h', _). h' \<noteq> h) (timers s)\<rparr>"

text \<open>
  The delay \<open>setTimeout\<close> of Node.js uses: the one asked for when it lies between 1 and
  \<open>2^31 - 1\<close> milliseconds, and 1 otherwise.
\<close>

definition timerDelay :: "nat \<Rightarrow> nat" where
  "timerDelay ms = (if 1 \<le> ms \<and> ms \<le> 2147483647 then ms else 1)"

definition hasWs :: "Context \<Rightarrow> bool" where
  "hasWs s \<longleftrightarrow> ws s \<noteq> None"

text \<open>
  \<open>ws.send\<close> on an accepted socket: the message goes out when the socket is open and is
  dropped, without an exception, when it is closing or closed.
\<close>

definition socket_send :: "nat \<Rightarrow> JsonRpcRequest \<Rightarrow> Context \<Rightarrow> Context" where
  "socket_send k req s =
     (if socket_open s k then s\<lparr>socket_sent := (socket_sent s)(k := socket_sent s k @ [req])\<rparr>
      else s)"

text \<open>
  \<open>sendRpcRequest\<close>, with the id that \<open>randomUUID()\<close> returns as an argument. It returns
  the call, whose promise is read from \<open>promises\<close>. Without a connection the getter \<open>ws\<close>
  throws, and the catch block takes the entry back and rejects with that error.
\<close>

definition sendRpcRequest ::
  "string \<Rightarrow> string \<Rightarrow> json \<Rightarrow> nat \<Rightarrow> Context \<Rightarrow> nat \<times> Context"
where
  "sendRpcRequest rid method params timeoutMs s =
     (let h = calls s;
          request = \<lparr>req_id = rid, req_method = method, req_params = params\<rparr>;
          s1 = s\<lparr>calls := h + 1,
                 timers := timers s @ [(h, clock s + timerDelay timeoutMs, rid, timeoutMs)]\<rparr>;
          s2 = s1\<lparr>pendingRequests := AList.update rid h (pendingRequests s1)\<rparr>
      in case ws s2 of
           Some k \<Rightarrow> (h, socket_send k request s2)
         | None \<Rightarrow>
             (let s3 = clearTimeout h s2;
                  s4 = s3\<lparr>pendingRequests := AList.delete rid (pendingRequests s3)\<rparr>
              in (h, settle h (Rejected None (Text noConnectionMessage)) s4)))"

text \<open>The default of the third parameter.\<close>

definition sendRpcRequest_default :: "string \<Rightarrow> string \<Rightarrow> json \<Rightarrow> Context \<Rightarrow> nat \<times> Context" where
  "sendRpcRequest_default rid method params s = sendRpcRequest rid method params 30000 s"

text \<open>\<open>handleResponse\<close>. The warning it logs for an unknown id is not part of the state.\<close>

definition handleResponse :: "JsonRpcResponse \<Rightarrow> Context \<Rightarrow> Context" where
  "handleResponse response s =
     (case map_of (pendingRequests s) (resp_id response) of
        None \<Rightarrow> s
      | Some h \<Rightarrow>
          (let s1 = clearTimeout h s;
               s2 = s1\<lparr>pendingRequests := AList.delete (resp_id response) (pendingRequests s1)\<rparr>
           in case resp_error response of
                Some (code, msg) \<Rightarrow> settle h (Rejected (Some code) msg) s2
              | None \<Rightarrow> settle h (Resolved (resp_result response)) s2))"

text \<open>The callback of a timer that fires.\<close>

definition timerFires :: "nat \<times> nat \<times> string \<times> nat \<Rightarrow> Context \<Rightarrow> Context" where
  "timerFires tm s =
     (case tm of (h, due, rid, timeoutMs) \<Rightarrow>
        settle h (Rejected (Some TIMEOUT) (TimedOutAfter timeoutMs))
          (s\<lparr>pendingRequests := AList.delete rid (pendingRequests s)\<rparr>))"

text \<open>
  Time passes for \<open>d\<close> milliseconds in which nothing arrives and no call is made: the
  timers due by then fire. Their callbacks settle different promises and delete ids, so the
  order among them does not show in the state.
\<close>

definition elapse :: "nat \<Rightarrow> Context \<Rightarrow> Context" where
  "elapse d s =
     (let t = clock s + d;
          due = filter (\<lambda>(h, due, _). due \<le> t) (timers s);
          later = filter (\<lambda>(h, due, _). \<not> due \<le> t) (timers s)
      in fold timerFires due (s\<lparr>clock := t, timers := later\<rparr>))"

text \<open>The loop of \<open>close\<close> over the pending requests.\<close>

fun rejectAll :: "(string \<times> nat) list \<Rightarrow> Context \<Rightarrow> Context" where
  "rejectAll [] s = s"
| "rejectAll ((rid, h) # rest) s =
     rejectAll rest (settle h (Rejected None (Text ''Connection closed'')) (clearTimeout h s))"

text \<open>\<open>Context.close\<close>.\<close>

definition close :: "Context \<Rightarrow> Context" where
  "close s =
     (case ws s of
        None \<Rightarrow> s
      | Some k \<Rightarrow>
          (let s1 = rejectAll (pendingRequests s) s;
               s2 = s1\<lparr>pendingRequests := []\<rparr>
           in s2\<lparr>socket_open := (socket_open s2)(k := False)\<rparr>))"

text \<open>
  The connection handler of \<open>main\<close> (index.ts): \<open>context.ws.close()\<close> is the \<open>close\<close> of
  the socket that the getter returns, then the new socket is stored.
\<close>

definition onConnection :: "nat \<Rightarrow> Context \<Rightarrow> Context" where
  "onConnection websocket s =
     (let s1 = (if hasWs s then
                  (case ws s of
                     Some k \<Rightarrow> s\<lparr>socket_open := (socket_open s)(k := False)\<rparr>
                   | None \<Rightarrow> s)
                else s)
      in s1\<lparr>ws := Some websocket\<rparr>)"

text \<open>A new Context: no connection, nothing pending. A socket is open until it is closed.\<close>

definition newContext :: Context where
  "newContext =
     \<lparr>ws = None, pendingRequests = [], clock = 0, timers = [], promises = (\<lambda>h. None),
      calls = 0, socket_open = (\<lambda>k. True), socket_sent = (\<lambda>k. [])\<rparr>"

text \<open>
  What happens to a session after that: time passes, \<open>sendRpcRequest\<close> is called, a message
  arrives that parses as a response, a connection is accepted. \<open>run\<close> lets a sequence of
  such events happen, \<open>elapsed\<close> is the time that passes in it, and an event mentions an id
  when it is a call made under that id or a response that carries it.
\<close>

datatype event =
    Elapse nat
  | Call string string json nat
  | Response JsonRpcResponse
  | Connect nat

fun step :: "event \<Rightarrow> Context \<Rightarrow> Context" where
  "step (Elapse d) s = elapse d s"
| "step (Call rid meth params timeoutMs) s = snd (sendRpcRequest rid meth params timeoutMs s)"
| "step (Response response) s = handleResponse response s"
| "step (Connect websocket) s = onConnection websocket s"

definition run :: "event list \<Rightarrow> Context \<Rightarrow> Context" where
  "run evs s = fold step evs s"

fun duration :: "event \<Rightarrow> nat" where
  "duration (Elapse d) = d"
| "duration _ = 0"

definition elapsed :: "event list \<Rightarrow> nat" where
  "elapsed evs = sum_list (map duration evs)"

fun mentions :: "string \<Rightarrow> event \<Rightarrow> bool" where
  "mentions rid (Call rid' _ _ _) = (rid' = rid)"
| "mentions rid (Response response) = (resp_id response = rid)"
| "mentions rid _ = False"

section \<open>Example pages and states\<close>

text \<open>A visible \<open>div\<close> without attributes, children or text.\<close>

definition blankNode :: node where
  "blankNode =
     \<lparr>isElementNode = True, interface = HTMLElement, tagName = str ''DIV'', attributes = [],
      type_property = None, childNodes = [], shadowRoot = None, assignedSlot = False,
      assignedNodes = [], style_display = str ''block'', style_visibility = str ''visible'',
      rect_width = 100, rect_height = 20, textContent = [], labels = [], node_value = [],
      option_values = [], isContentEditable = False\<rparr>"

text \<open>A \<open>button\<close> with the given text; its \<open>type\<close> property is \<open>submit\<close>.\<close>

definition buttonNode :: "jsstring \<Rightarrow> node" where
  "buttonNode label =
     blankNode\<lparr>tagName := str ''BUTTON'', type_property := Some (str ''submit''),
                textContent := label\<rparr>"

text \<open>
  A \<open>body\<close> with \<open>role="application"\<close> and the given children. The explicit role matters:
  a body has no \<open>type\<close> property, and without a role attribute \<open>getAriaRole\<close> raises
  TypeError on it.
\<close>

definition bodyNode :: "handle list \<Rightarrow> node" where
  "bodyNode children =
     blankNode\<lparr>tagName := str ''BODY'', attributes := [(str ''role'', str ''application'')],
                childNodes := children\<rparr>"

text \<open>\<open><div role="button link">Go</div>\<close>\<close>

definition twoRolesNode :: node where
  "twoRolesNode =
     blankNode\<lparr>attributes := [(str ''role'', str ''button link'')], textContent := str ''Go''\<rparr>"

text \<open>
  A page whose body has the given children: node 1 is the button A, node 2 the button B,
  node 3 the \<open>div\<close> with two role tokens; every other handle is a text node. The selector
  engine knows the pattern \<open>button\<close> and, as every selector engine does, raises
  SyntaxError on the empty pattern.
\<close>

definition examplePage :: "handle list \<Rightarrow> page" where
  "examplePage children =
     \<lparr>nodes = (\<lambda>h. if h = 0 then bodyNode children
                   else if h = 1 then buttonNode (str ''A'')
                   else if h = 2 then buttonNode (str ''B'')
                   else if h = 3 then twoRolesNode
                   else blankNode\<lparr>isElementNode := False\<rparr>),
      body = Some 0,
      getElementById = (\<lambda>i. None),
      querySelectorAll =
        (\<lambda>c. if c = [] then Inl (SyntaxError ''The provided selector is empty.'')
             else if c = str ''button'' then Inr (filter (\<lambda>h. h = 1 \<or> h = 2) children)
             else Inr []),
      treeWalker = 0 # children,
      activeElement = None,
      location_href = str ''https://example.com/'',
      document_title = str ''Example'',
      accessibleName = (\<lambda>h. if h = 1 then str ''A'' else if h = 2 then str ''B'' else str ''Go''),
      ariaStates = (\<lambda>h r. []),
      effects = []\<rparr>"

text \<open>The reference table when the content script is loaded.\<close>

definition emptyRefs :: refs where
  "emptyRefs = \<lparr>elementRefCounter = 0, elementRefMap = (\<lambda>el. None)\<rparr>"

text \<open>A new Context after socket \<open>k\<close> was accepted.\<close>

definition connectedContext :: "nat \<Rightarrow> Context" where
  "connectedContext k = run [Connect k] newContext"

section \<open>Predicates used in the proofs\<close>

text \<open>
  \<open>keeps st st'\<close>: every element that holds a non-empty token in \<open>st\<close> holds the same
  token in \<open>st'\<close>. \<open>consistent els st\<close>: every row carries the token its element holds in
  \<open>st\<close>. \<open>sound walk\<close>: a step of the walk keeps the table and the rows that way.
\<close>

definition keeps :: "refs \<Rightarrow> refs \<Rightarrow> bool" where
  "keeps st st' \<longleftrightarrow>
     (\<forall>el r. elementRefMap st el = Some r \<and> r \<noteq> [] \<longrightarrow> elementRefMap st' el = Some r)"

definition consistent :: "rows \<Rightarrow> refs \<Rightarrow> bool" where
  "consistent els st \<longleftrightarrow>
     (\<forall>(el, row) \<in> set els. elementRefMap st el = Some (ref row) \<and> ref row \<noteq> [])"

definition sound :: "(handle \<Rightarrow> rows \<Rightarrow> refs \<Rightarrow> rows computation) \<Rightarrow> bool" where
  "sound walk \<longleftrightarrow>
     (\<forall>nd els st res st'. walk nd els st = Some (res, st') \<longrightarrow>
        keeps st st' \<and> (\<forall>els'. res = Inr els' \<longrightarrow> consistent els st \<longrightarrow> consistent els' st'))"

text \<open>
  \<open>wellformed\<close>: the calls that timers and pending requests refer to have been made, and
  the promises of calls not yet made are unsettled. \<open>waiting tm s\<close>: the call of timer \<open>tm\<close>
  is pending in \<open>s\<close>, its promise unsettled, its timer armed and not yet due, and no other
  timer or pending request refers to the call or the id. \<open>timedOut tm s\<close>: the timer was
  due, the promise of its call is rejected with TIMEOUT and its id is not pending.
\<close>

definition wellformed :: "Context \<Rightarrow> bool" where
  "wellformed s \<longleftrightarrow>
     (\<forall>tm \<in> set (timers s). fst tm < calls s) \<and>
     (\<forall>(rid, h) \<in> set (pendingRequests s). h < calls s) \<and>
     (\<forall>h. calls s \<le> h \<longrightarrow> promises s h = None)"

definition waiting :: "nat \<times> nat \<times> string \<times> nat \<Rightarrow> Context \<Rightarrow> bool" where
  "waiting tm s \<longleftrightarrow>
     (case tm of (h, due, rid, ms) \<Rightarrow>
        clock s < due \<and> tm \<in> set (timers s) \<and>
        (\<forall>t \<in> set (timers s). t \<noteq> tm \<longrightarrow> fst t \<noteq> h \<and> fst (snd (snd t)) \<noteq> rid) \<and>
        map_of (pendingRequests s) rid = Some h \<and>
        (\<forall>(rid', h') \<in> set (pendingRequests s). h' = h \<longrightarrow> rid' = rid) \<and>
        promises s h = None \<and> h < calls s)"

definition timedOut :: "nat \<times> nat \<times> string \<times> nat \<Rightarrow> Context \<Rightarrow> bool" where
  "timedOut tm s \<longleftrightarrow>
     (case tm of (h, due, rid, ms) \<Rightarrow>
        due \<le> clock s \<and>
        promises s h = Some (Rejected (Some TIMEOUT) (TimedOutAfter ms)) \<and>
        map_of (pendingRequests s) rid = None)"

text \<open>The timer that \<open>sendRpcRequest\<close> arms in state \<open>s\<close>.\<close>

definition armed :: "string \<Rightarrow> nat \<Rightarrow> Context \<Rightarrow> nat \<times> nat \<times> string \<times> nat" where
  "armed rid timeoutMs s = (calls s, clock s + timerDelay timeoutMs, rid, timeoutMs)"

section \<open>Properties of white-space normalisation\<close>

lemma dropWhile_ws_cases:
  obtains "dropWhile isWhiteSpace cs = []"
  | x xs where "dropWhile isWhiteSpace cs = x # xs" "\<not> isWhiteSpace x"
  by (metis hd_dropWhile list.exhaust list.sel(1))

lemma compact_replace_ws: "compact (replace_ws s)"
proof (induction s rule: replace_ws.induct)
  case 1
  show ?case by simp
next
  case (2 c cs)
  show ?case
  proof (cases "isWhiteSpace c")
    case True
    with 2 have ih: "compact (replace_ws (dropWhile isWhiteSpace cs))" by simp
    show ?thesis
    proof (cases cs rule: dropWhile_ws_cases)
      case 1
      have "replace_ws (c # cs) = 0x0020 # replace_ws (dropWhile isWhiteSpace cs)"
        using True by simp
      then show ?thesis by (simp only: 1 replace_ws.simps compact.simps) simp
    next
      case (2 x xs)
      with True ih show ?thesis by simp
    qed
  next
    case False
    with 2 have ih: "compact (replace_ws cs)" by simp
    with False show ?thesis by (cases "replace_ws cs") simp_all
  qed
qed

lemma compact_tl: "compact (c # cs) \<Longrightarrow> compact cs"
  by (cases cs) simp_all

lemma replace_ws_compact: "compact s \<Longrightarrow> replace_ws s = s"
proof (induction s rule: compact.induct)
  case 1
  show ?case by simp
next
  case (2 c)
  then show ?case by simp
next
  case (3 c d cs)
  then show ?case by (cases "isWhiteSpace c") auto
qed

lemma compact_append: "compact (xs @ ys) \<Longrightarrow> compact xs \<and> compact ys"
proof (induction xs rule: compact.induct)
  case 1
  then show ?case by simp
next
  case (2 c)
  then show ?case by (cases ys) (auto dest: compact_tl)
next
  case (3 c d cs)
  then show ?case by auto
qed

lemma compact_dropWhile: "compact s \<Longrightarrow> compact (dropWhile P s)"
  by (metis compact_append takeWhile_dropWhile_id)

lemma compact_trim: "compact s \<Longrightarrow> compact (trim s)"
proof -
  assume c: "compact s"
  let ?u = "dropWhile isWhiteSpace s"
  have "?u = rev (dropWhile isWhiteSpace (rev ?u)) @ rev (takeWhile isWhiteSpace (rev ?u))"
    by (metis rev_append rev_rev_ident takeWhile_dropWhile_id)
  moreover have "compact ?u" using c by (rule compact_dropWhile)
  ultimately show ?thesis unfolding trim_def by (metis compact_append)
qed

lemma dropWhile_rev_dropWhile:
  assumes "xs = [] \<or> \<not> P (hd xs)"
  shows "dropWhile P (rev (dropWhile P (rev xs))) = rev (dropWhile P (rev xs))"
proof (cases "dropWhile P (rev xs) = []")
  case True
  show ?thesis by (simp only: True rev.simps dropWhile.simps)
next
  case False
  then have ne: "xs \<noteq> []" by auto
  have "last (dropWhile P (rev xs)) = last (rev xs)"
    using False by (metis last_appendR takeWhile_dropWhile_id)
  then have "hd (rev (dropWhile P (rev xs))) = hd xs"
    using False ne by (simp add: hd_rev last_rev)
  with assms ne False show ?thesis
    by (cases "rev (dropWhile P (rev xs))") auto
qed

lemma trim_trim: "trim (trim s) = trim s"
proof -
  let ?u = "dropWhile isWhiteSpace s"
  have "?u = [] \<or> \<not> isWhiteSpace (hd ?u)"
    by (metis hd_dropWhile)
  then have "dropWhile isWhiteSpace (trim s) = trim s"
    unfolding trim_def by (rule dropWhile_rev_dropWhile)
  then show ?thesis by (simp add: trim_def)
qed

text \<open>
  C9. Whitespace normalisation is idempotent: normalising an already normalised string
  returns it unchanged, for every string.
\<close>

theorem normalizeWhitespace_idempotent:
  "normalizeWhitespace (normalizeWhitespace s) = normalizeWhitespace s"
  unfolding normalizeWhitespace_def
  by (simp add: replace_ws_compact compact_trim compact_replace_ws trim_trim)

section \<open>Elements without a type property\<close>

text \<open>
  For an element without a role attribute \<open>getAriaRole\<close> builds its table, and with it calls
  \<open>getInputRole\<close>, whatever the tag: on an element that has no \<open>type\<close> property this
  raises TypeError. A snapshot of a page whose visible body is such an element ends there.
\<close>

lemma getAriaRole_without_type:
  assumes "\<not> truthy (getAttribute el ''role'')" and "type_property el = None"
  shows "getAriaRole el = Inl (TypeError ''Cannot read properties of undefined (reading toLowerCase)'')"
  using assms by (simp add: getAriaRole_def getInputRole_def Let_def)

lemma snapshot_raises_on_plain_body:
  assumes "body pg = Some b" and "isElementNode (nodes pg b)" and "\<not> isHidden (nodes pg b)"
    and "\<not> truthy (getAttribute (nodes pg b) ''role'')" and "type_property (nodes pg b) = None"
  shows "generateAriaSnapshot (Suc depth) pg st =
           Some (Inl (TypeError ''Cannot read properties of undefined (reading toLowerCase)''),
                 st\<lparr>elementRefCounter := 0\<rparr>)"
  using assms getAriaRole_without_type [of "nodes pg b"]
  by (simp add: generateAriaSnapshot_def snapshotRows_def Let_def)

section \<open>Tokens are kept\<close>

lemma keeps_refl: "keeps st st"
  by (simp add: keeps_def)

lemma keeps_trans: "keeps a b \<Longrightarrow> keeps b c \<Longrightarrow> keeps a c"
  by (simp add: keeps_def)

lemma consistent_keeps: "consistent els st \<Longrightarrow> keeps st st' \<Longrightarrow> consistent els st'"
  by (fastforce simp: consistent_def keeps_def)

lemma mintRef_fresh:
  assumes "mintRef el st = (r, st')"
  shows "r \<noteq> [] \<and> elementRefMap st' el = Some r \<and>
         (\<forall>x. x \<noteq> el \<longrightarrow> elementRefMap st' x = elementRefMap st x)"
  using assms by (auto simp: mintRef_def Let_def str_def)

lemma getOrCreateRef_result:
  assumes "getOrCreateRef el st = (r, st')"
  shows "r \<noteq> [] \<and> elementRefMap st' el = Some r \<and> keeps st st'"
proof (cases "\<exists>c. elementRefMap st el = Some c \<and> c \<noteq> []")
  case True
  with assms show ?thesis by (auto simp: getOrCreateRef_def keeps_def)
next
  case False
  with assms have m: "mintRef el st = (r, st')"
    by (auto simp: getOrCreateRef_def split: option.splits if_splits)
  from mintRef_fresh [OF m] False show ?thesis
    by (auto simp: keeps_def)
qed

lemma walkEach_sound:
  assumes "sound walk" and "walkEach walk cs els st = Some (res, st')"
  shows "keeps st st' \<and> (\<forall>els'. res = Inr els' \<longrightarrow> consistent els st \<longrightarrow> consistent els' st')"
  using assms(2)
proof (induction cs arbitrary: els st)
  case Nil
  then show ?case by (auto simp: keeps_refl)
next
  case (Cons c cs)
  from Cons.prems obtain r1 s1 where w: "walk c els st = Some (r1, s1)"
    by (auto split: option.splits)
  with assms(1) have k1: "keeps st s1"
    and c1: "\<And>e1. r1 = Inr e1 \<Longrightarrow> consistent els st \<Longrightarrow> consistent e1 s1"
    by (auto simp: sound_def)
  show ?case
  proof (cases r1)
    case (Inl e)
    with Cons.prems w k1 show ?thesis by auto
  next
    case (Inr e1)
    with Cons.prems w have rest: "walkEach walk cs e1 s1 = Some (res, st')" by simp
    from Cons.IH [OF rest] k1 c1 [OF Inr] show ?thesis
      by (auto intro: keeps_trans)
  qed
qed

lemma walkAriaTree_sound: "sound (\<lambda>nd els st. walkAriaTree depth pg nd els st)"
proof (induction depth)
  case 0
  show ?case by (simp add: sound_def)
next
  case (Suc depth)
  let ?walk = "\<lambda>c a s. walkAriaTree depth pg c a s"
  show ?case
    unfolding sound_def
  proof (intro allI impI)
    fix nd els st res st'
    assume run: "walkAriaTree (Suc depth) pg nd els st = Some (res, st')"
    let ?el = "nodes pg nd"
    show "keeps st st' \<and> (\<forall>els'. res = Inr els' \<longrightarrow> consistent els st \<longrightarrow> consistent els' st')"
    proof (cases "\<not> isElementNode ?el \<or> isHidden ?el")
      case True
      with run show ?thesis by (auto simp: keeps_refl Let_def split: if_splits)
    next
      case False
      show ?thesis
      proof (cases "getAriaRole ?el")
        case (Inl e)
        with run False show ?thesis by (auto simp: keeps_refl Let_def)
      next
        case (Inr r)
        obtain els1 st1 where emit:
          "(case r of None \<Rightarrow> (els, st)
            | Some rl \<Rightarrow>
                if rl \<noteq> [] \<and> shouldIncludeElement rl ?el then
                  (let (rf, st') = getOrCreateRef nd st in
                   (els @ [(nd, \<lparr>ref = rf, role = rl, name = accessibleName pg nd,
                                  states = ariaStates pg nd rl\<rparr>)], st'))
                else (els, st)) = (els1, st1)"
          by (cases "case r of None \<Rightarrow> (els, st)
            | Some rl \<Rightarrow>
                if rl \<noteq> [] \<and> shouldIncludeElement rl ?el then
                  (let (rf, st') = getOrCreateRef nd st in
                   (els @ [(nd, \<lparr>ref = rf, role = rl, name = accessibleName pg nd,
                                  states = ariaStates pg nd rl\<rparr>)], st'))
                else (els, st)") auto
        have k01: "keeps st st1" and c01: "consistent els st \<Longrightarrow> consistent els1 st1"
          using emit getOrCreateRef_result [of nd st]
          by (auto simp: keeps_refl consistent_def keeps_def Let_def
                split: option.splits if_splits prod.splits)
        from run False Inr emit obtain r2 st2 where
          ch: "walkEach ?walk (getChildren pg ?el) els1 st1 = Some (r2, st2)"
          by (auto simp: Let_def split: option.splits)
        from walkEach_sound [OF Suc ch] have k12: "keeps st1 st2"
          and c12: "\<And>e2. r2 = Inr e2 \<Longrightarrow> consistent els1 st1 \<Longrightarrow> consistent e2 st2"
          by auto
        show ?thesis
        proof (cases r2)
          case (Inl e)
          with run False Inr emit ch k01 k12 show ?thesis
            by (auto simp: Let_def intro: keeps_trans)
        next
          case r2: (Inr els2)
          with run False Inr emit ch have
            ow: "walkEach ?walk (ownedElements pg ?el) els2 st2 = Some (res, st')"
            by (simp add: Let_def)
          from walkEach_sound [OF Suc ow] k01 k12 c01 c12 [OF r2] show ?thesis
            by (auto intro: keeps_trans)
        qed
      qed
    qed
  qed
qed

lemma snapshotRows_sound:
  assumes "snapshotRows depth pg st = Some (Inr els, st')"
  shows "consistent els st' \<and> keeps st st'"
proof (cases "body pg")
  case None
  with assms show ?thesis by (auto simp: snapshotRows_def consistent_def keeps_def)
next
  case (Some b)
  with assms have "walkAriaTree depth pg b [] (st\<lparr>elementRefCounter := 0\<rparr>) = Some (Inr els, st')"
    by (simp add: snapshotRows_def)
  with walkAriaTree_sound [of depth pg]
  have "keeps (st\<lparr>elementRefCounter := 0\<rparr>) st'" and "consistent els st'"
    by (auto simp: sound_def consistent_def)
  then show ?thesis by (simp add: keeps_def)
qed


text \<open>
  C7. Reference stability: an element that two successive snapshots of a session both
  expose is reported with the same token in both, whatever happened to the page in between.
\<close>

theorem reference_stable_across_snapshots:
  assumes "snapshotRows depth1 pg1 st = Some (Inr rows1, st1)"
    and "snapshotRows depth2 pg2 st1 = Some (Inr rows2, st2)"
    and "(el, row1) \<in> set rows1" and "(el, row2) \<in> set rows2"
  shows "ref row1 = ref row2"
proof -
  from snapshotRows_sound [OF assms(1)] assms(3)
  have a: "elementRefMap st1 el = Some (ref row1)" "ref row1 \<noteq> []"
    by (auto simp: consistent_def)
  from snapshotRows_sound [OF assms(2)] assms(4)
  have b: "elementRefMap st2 el = Some (ref row2)" and k: "keeps st1 st2"
    by (auto simp: consistent_def)
  from k a have "elementRefMap st2 el = Some (ref row1)" by (simp add: keeps_def)
  with b show ?thesis by simp
qed

theorem reference_stable_witness:
  "\<exists>rows1 st1 rows2 st2 row1 row2.
     snapshotRows 3 (examplePage [1]) emptyRefs = Some (Inr rows1, st1) \<and>
     snapshotRows 3 (examplePage [2, 1]) st1 = Some (Inr rows2, st2) \<and>
     (1, row1) \<in> set rows1 \<and> (1, row2) \<in> set rows2 \<and> ref row1 = ref row2"
proof -
  let ?row = "\<lparr>ref = str ''e1'', role = str ''button'', name = str ''A'', states = []\<rparr>"
  have "case snapshotRows 3 (examplePage [1]) emptyRefs of
          Some (Inr rows1, st1) \<Rightarrow>
            (1, ?row) \<in> set rows1 \<and>
            (case snapshotRows 3 (examplePage [2, 1]) st1 of
               Some (Inr rows2, st2) \<Rightarrow> (1, ?row) \<in> set rows2
             | _ \<Rightarrow> False)
        | _ \<Rightarrow> False"
    by code_simp
  then have F: "case snapshotRows 3 (examplePage [1]) emptyRefs of
          Some (Inr rows1, st1) \<Rightarrow>
            (1, ?row) \<in> set rows1 \<and>
            (case snapshotRows 3 (examplePage [2, 1]) st1 of
               Some (Inr rows2, st2) \<Rightarrow> (1, ?row) \<in> set rows2
             | _ \<Rightarrow> False)
        | _ \<Rightarrow> False" .
  from F obtain res1 st1 where a: "snapshotRows 3 (examplePage [1]) emptyRefs = Some (res1, st1)"
    by (cases "snapshotRows 3 (examplePage [1]) emptyRefs") auto
  from F a obtain rows1 where r1: "res1 = Inr rows1" by (cases res1) auto
  from F a r1 have m1: "(1, ?row) \<in> set rows1"
    and G: "case snapshotRows 3 (examplePage [2, 1]) st1 of
               Some (Inr rows2, st2) \<Rightarrow> (1, ?row) \<in> set rows2
             | _ \<Rightarrow> False"
    by simp_all
  from G obtain res2 st2 where b: "snapshotRows 3 (examplePage [2, 1]) st1 = Some (res2, st2)"
    by (cases "snapshotRows 3 (examplePage [2, 1]) st1") auto
  from G b obtain rows2 where r2: "res2 = Inr rows2" by (cases res2) auto
  from G b r2 have m2: "(1, ?row) \<in> set rows2" by simp
  have s1: "snapshotRows 3 (examplePage [1]) emptyRefs = Some (Inr rows1, st1)"
    using a r1 by simp
  have s2: "snapshotRows 3 (examplePage [2, 1]) st1 = Some (Inr rows2, st2)"
    using b r2 by simp
  from reference_stable_across_snapshots [OF s1 s2 m1 m2] s1 s2 m1 m2
  show ?thesis by blast
qed

section \<open>A call that is never answered\<close>

lemma settle_pending [simp]: "pendingRequests (settle h out s) = pendingRequests s"
  by (simp add: settle_def split: option.splits)

lemma settle_promises_other: "h' \<noteq> h \<Longrightarrow> promises (settle h out s) h' = promises s h'"
  by (simp add: settle_def split: option.splits)

lemma timerFires_promises_other:
  "fst tm \<noteq> h \<Longrightarrow> promises (timerFires tm s) h = promises s h"
  by (cases tm) (simp add: timerFires_def settle_def split: option.splits)

lemma timerFires_pending_other:
  "fst (snd (snd tm)) \<noteq> rid \<Longrightarrow>
   map_of (pendingRequests (timerFires tm s)) rid = map_of (pendingRequests s) rid"
  by (cases tm) (simp add: timerFires_def)

lemma fold_timerFires_promises:
  "h \<notin> fst ` set tms \<Longrightarrow> promises (fold timerFires tms s) h = promises s h"
  by (induction tms arbitrary: s) (auto simp: timerFires_promises_other)

lemma fold_timerFires_pending:
  "rid \<notin> (\<lambda>tm. fst (snd (snd tm))) ` set tms \<Longrightarrow>
   map_of (pendingRequests (fold timerFires tms s)) rid = map_of (pendingRequests s) rid"
  by (induction tms arbitrary: s) (auto simp: timerFires_pending_other)

lemma sendRpcRequest_connected:
  assumes "ws s = Some k"
  shows "fst (sendRpcRequest rid meth params timeoutMs s) = calls s"
    and "timers (snd (sendRpcRequest rid meth params timeoutMs s)) =
           timers s @ [armed rid timeoutMs s]"
    and "pendingRequests (snd (sendRpcRequest rid meth params timeoutMs s)) =
           AList.update rid (calls s) (pendingRequests s)"
    and "promises (snd (sendRpcRequest rid meth params timeoutMs s)) = promises s"
    and "clock (snd (sendRpcRequest rid meth params timeoutMs s)) = clock s"
  using assms by (simp_all add: sendRpcRequest_def Let_def socket_send_def armed_def)

lemma set_update_subset: "set (AList.update k v al) \<subseteq> insert (k, v) (set al)"
  by (induction al) auto

lemma set_delete_subset: "set (AList.delete k al) \<subseteq> set al"
  by (auto simp: AList.delete_eq)

lemma settle_other_fields [simp]:
  "timers (settle h out s) = timers s" "clock (settle h out s) = clock s"
  "calls (settle h out s) = calls s" "ws (settle h out s) = ws s"
  by (simp_all add: settle_def split: option.splits)

lemma timerFires_fields [simp]:
  "timers (timerFires tm s) = timers s" "clock (timerFires tm s) = clock s"
  "calls (timerFires tm s) = calls s"
  by (cases tm; simp add: timerFires_def)+

lemma fold_timerFires_fields [simp]:
  "timers (fold timerFires tms s) = timers s" "clock (fold timerFires tms s) = clock s"
  "calls (fold timerFires tms s) = calls s"
  by (induction tms arbitrary: s; simp)+

lemma timerFires_pending_subset:
  "set (pendingRequests (timerFires tm s)) \<subseteq> set (pendingRequests s)"
  by (cases tm) (simp add: timerFires_def set_delete_subset)

lemma fold_timerFires_pending_subset:
  "set (pendingRequests (fold timerFires tms s)) \<subseteq> set (pendingRequests s)"
proof (induction tms arbitrary: s)
  case Nil
  show ?case by simp
next
  case (Cons tm tms)
  have "set (pendingRequests (fold timerFires tms (timerFires tm s))) \<subseteq>
        set (pendingRequests (timerFires tm s))" by (rule Cons.IH)
  with timerFires_pending_subset [of tm s] show ?case by auto
qed

lemma timerFires_settled:
  "promises s h = Some x \<Longrightarrow> promises (timerFires tm s) h = Some x"
  by (cases tm) (auto simp: timerFires_def settle_def split: option.splits)

lemma fold_timerFires_settled:
  "promises s h = Some x \<Longrightarrow> promises (fold timerFires tms s) h = Some x"
  by (induction tms arbitrary: s) (simp_all add: timerFires_settled)

lemma timerFires_absent:
  "map_of (pendingRequests s) rid = None \<Longrightarrow> map_of (pendingRequests (timerFires tm s)) rid = None"
  by (cases tm) (simp add: timerFires_def AList.delete_conv')

lemma fold_timerFires_absent:
  "map_of (pendingRequests s) rid = None \<Longrightarrow>
   map_of (pendingRequests (fold timerFires tms s)) rid = None"
  by (induction tms arbitrary: s) (simp_all add: timerFires_absent)

lemma fold_timerFires_fired:
  assumes "(h, due, rid, ms) \<in> set tms" and "promises s h = None"
    and "\<forall>t \<in> set tms. t \<noteq> (h, due, rid, ms) \<longrightarrow> fst t \<noteq> h"
  shows "promises (fold timerFires tms s) h = Some (Rejected (Some TIMEOUT) (TimedOutAfter ms)) \<and>
         map_of (pendingRequests (fold timerFires tms s)) rid = None"
  using assms
proof (induction tms arbitrary: s)
  case Nil
  then show ?case by simp
next
  case (Cons t tms)
  show ?case
  proof (cases "t = (h, due, rid, ms)")
    case True
    have p: "promises (timerFires t s) h = Some (Rejected (Some TIMEOUT) (TimedOutAfter ms))"
      using True Cons.prems(2) by (simp add: timerFires_def settle_def)
    have q: "map_of (pendingRequests (timerFires t s)) rid = None"
      using True by (simp add: timerFires_def AList.delete_conv')
    from fold_timerFires_settled [OF p] fold_timerFires_absent [OF q] show ?thesis by simp
  next
    case False
    with Cons.prems have "fst t \<noteq> h" and "(h, due, rid, ms) \<in> set tms" by auto
    with Cons.prems have "promises (timerFires t s) h = None"
      by (simp add: timerFires_promises_other)
    with Cons.IH [of "timerFires t s"] Cons.prems \<open>(h, due, rid, ms) \<in> set tms\<close>
    show ?thesis by simp
  qed
qed

lemma clearTimeout_fields [simp]:
  "pendingRequests (clearTimeout h s) = pendingRequests s" "clock (clearTimeout h s) = clock s"
  "calls (clearTimeout h s) = calls s" "promises (clearTimeout h s) = promises s"
  "set (timers (clearTimeout h s)) = {t \<in> set (timers s). fst t \<noteq> h}"
  by (auto simp: clearTimeout_def)

lemma waiting_elapse:
  assumes w: "waiting (h, due, rid, ms) s"
  shows "if clock s + d < due then waiting (h, due, rid, ms) (elapse d s)
         else timedOut (h, due, rid, ms) (elapse d s)"
proof -
  let ?tm = "(h, due, rid, ms)"
  let ?t = "clock s + d"
  let ?due = "filter (\<lambda>(h, due, _). due \<le> ?t) (timers s)"
  let ?later = "filter (\<lambda>(h, due, _). \<not> due \<le> ?t) (timers s)"
  let ?s0 = "s\<lparr>clock := ?t, timers := ?later\<rparr>"
  have e: "elapse d s = fold timerFires ?due ?s0" by (simp add: elapse_def Let_def)
  from w have tm: "?tm \<in> set (timers s)"
    and others: "\<forall>t \<in> set (timers s). t \<noteq> ?tm \<longrightarrow> fst t \<noteq> h \<and> fst (snd (snd t)) \<noteq> rid"
    and pend: "map_of (pendingRequests s) rid = Some h"
    and own: "\<forall>(rid', h') \<in> set (pendingRequests s). h' = h \<longrightarrow> rid' = rid"
    and un: "promises s h = None" and lt: "h < calls s" and cl: "clock s < due"
    by (auto simp: waiting_def)
  show ?thesis
  proof (cases "?t < due")
    case True
    then have notdue: "?tm \<notin> set ?due" by auto
    with others have "h \<notin> fst ` set ?due" "rid \<notin> (\<lambda>tm. fst (snd (snd tm))) ` set ?due"
      by force+
    then have p: "promises (elapse d s) h = None"
      and q: "map_of (pendingRequests (elapse d s)) rid = Some h"
      using un pend by (simp_all add: e fold_timerFires_promises fold_timerFires_pending)
    have sub: "set (pendingRequests (elapse d s)) \<subseteq> set (pendingRequests s)"
      using fold_timerFires_pending_subset [of ?due ?s0] by (simp add: e)
    have "?tm \<in> set ?later" using tm True by auto
    with True p q sub others own lt show ?thesis
      by (auto simp: waiting_def e)
  next
    case False
    then have "?tm \<in> set ?due" using tm by auto
    moreover have "promises ?s0 h = None" using un by simp
    moreover have "\<forall>t \<in> set ?due. t \<noteq> ?tm \<longrightarrow> fst t \<noteq> h" using others by auto
    ultimately have "promises (fold timerFires ?due ?s0) h =
        Some (Rejected (Some TIMEOUT) (TimedOutAfter ms)) \<and>
      map_of (pendingRequests (fold timerFires ?due ?s0)) rid = None"
      by (rule fold_timerFires_fired)
    with False show ?thesis by (simp add: timedOut_def e)
  qed
qed

lemma timedOut_elapse:
  assumes "timedOut (h, due, rid, ms) s"
  shows "timedOut (h, due, rid, ms) (elapse d s)"
  using assms
  by (simp add: timedOut_def elapse_def Let_def fold_timerFires_settled fold_timerFires_absent)

lemma waiting_handleResponse:
  assumes w: "waiting (h, due, rid, ms) s" and ne: "resp_id response \<noteq> rid"
  shows "waiting (h, due, rid, ms) (handleResponse response s)"
proof (cases "map_of (pendingRequests s) (resp_id response)")
  case None
  with w show ?thesis by (simp add: handleResponse_def)
next
  case (Some h')
  then have "(resp_id response, h') \<in> set (pendingRequests s)" by (rule map_of_SomeD)
  with w ne have hh: "h' \<noteq> h" by (auto simp: waiting_def)
  let ?s2 = "(clearTimeout h' s)\<lparr>pendingRequests :=
      AList.delete (resp_id response) (pendingRequests (clearTimeout h' s))\<rparr>"
  have w2: "waiting (h, due, rid, ms) ?s2"
    using w hh ne set_delete_subset [of "resp_id response" "pendingRequests s"]
    by (auto simp: waiting_def AList.delete_conv')
  have "waiting (h, due, rid, ms) (settle h' out ?s2)" for out
    using w2 hh by (auto simp: waiting_def settle_promises_other)
  with Some show ?thesis
    by (simp add: handleResponse_def Let_def split: option.splits)
qed

lemma timedOut_handleResponse:
  assumes w: "timedOut (h, due, rid, ms) s" and ne: "resp_id response \<noteq> rid"
  shows "timedOut (h, due, rid, ms) (handleResponse response s)"
proof (cases "map_of (pendingRequests s) (resp_id response)")
  case None
  with w show ?thesis by (simp add: handleResponse_def)
next
  case (Some h')
  let ?s2 = "(clearTimeout h' s)\<lparr>pendingRequests :=
      AList.delete (resp_id response) (pendingRequests (clearTimeout h' s))\<rparr>"
  have w2: "timedOut (h, due, rid, ms) ?s2"
    using w ne by (auto simp: timedOut_def AList.delete_conv')
  have "timedOut (h, due, rid, ms) (settle h' out ?s2)" for out
    using w2 by (auto simp: timedOut_def settle_def split: option.splits)
  with Some show ?thesis
    by (simp add: handleResponse_def Let_def split: option.splits)
qed

lemma in_update_cases: "(r, h') \<in> set (AList.update k v al) \<Longrightarrow> (r, h') = (k, v) \<or> (r, h') \<in> set al"
  using set_update_subset [of k v al] by auto

lemma in_delete: "(r, h') \<in> set (AList.delete k al) \<Longrightarrow> (r, h') \<in> set al"
  using set_delete_subset [of k al] by auto

lemma waiting_sendRpcRequest:
  assumes w: "waiting (h, due, rid, ms) s" and ne: "rid' \<noteq> rid"
  shows "waiting (h, due, rid, ms) (snd (sendRpcRequest rid' meth params ms' s))"
proof (cases "ws s")
  case None
  with w ne show ?thesis
    by (auto simp: waiting_def sendRpcRequest_def Let_def settle_def clearTimeout_def
        AList.update_conv' AList.delete_conv' split: option.splits
        dest!: in_delete in_update_cases)
next
  case (Some k)
  with w ne show ?thesis
    by (auto simp: waiting_def sendRpcRequest_def Let_def socket_send_def
        AList.update_conv' dest!: in_update_cases)
qed

lemma timedOut_sendRpcRequest:
  assumes w: "timedOut (h, due, rid, ms) s" and ne: "rid' \<noteq> rid"
  shows "timedOut (h, due, rid, ms) (snd (sendRpcRequest rid' meth params ms' s))"
proof (cases "ws s")
  case None
  with w ne show ?thesis
    by (auto simp: timedOut_def sendRpcRequest_def Let_def settle_def clearTimeout_def
        AList.update_conv' AList.delete_conv' split: option.splits)
next
  case (Some k)
  with w ne show ?thesis
    by (auto simp: timedOut_def sendRpcRequest_def Let_def socket_send_def AList.update_conv')
qed

lemma waiting_onConnection:
  "waiting tm s \<Longrightarrow> waiting tm (onConnection k s)"
  by (cases tm) (auto simp: waiting_def onConnection_def Let_def split: option.splits)

lemma timedOut_onConnection:
  "timedOut tm s \<Longrightarrow> timedOut tm (onConnection k s)"
  by (cases tm) (auto simp: timedOut_def onConnection_def Let_def split: option.splits)

lemma clock_step: "clock (step ev s) = clock s + duration ev"
proof (cases ev)
  case (Elapse d)
  then show ?thesis by (simp add: elapse_def Let_def)
next
  case (Call r m p t)
  then show ?thesis
    by (simp add: sendRpcRequest_def Let_def socket_send_def settle_def clearTimeout_def
        split: option.splits)
next
  case (Response r)
  then show ?thesis
    by (simp add: handleResponse_def Let_def settle_def clearTimeout_def split: option.splits)
next
  case (Connect k)
  then show ?thesis by (simp add: onConnection_def Let_def split: option.splits)
qed

lemma timedOut_step:
  assumes "timedOut (h, due, rid, ms) s" and "\<not> mentions rid ev"
  shows "timedOut (h, due, rid, ms) (step ev s)"
  using assms
  by (cases ev)
     (simp_all add: timedOut_elapse timedOut_sendRpcRequest timedOut_handleResponse
        timedOut_onConnection)

lemma timedOut_run:
  assumes "timedOut (h, due, rid, ms) s" and "\<forall>ev \<in> set evs. \<not> mentions rid ev"
  shows "timedOut (h, due, rid, ms) (run evs s)"
  using assms unfolding run_def
  by (induction evs arbitrary: s) (simp_all add: timedOut_step)

lemma waiting_step:
  assumes "waiting (h, due, rid, ms) s" and "\<not> mentions rid ev"
  shows "if clock s + duration ev < due then waiting (h, due, rid, ms) (step ev s)
         else timedOut (h, due, rid, ms) (step ev s)"
proof (cases ev)
  case (Elapse d)
  with waiting_elapse [OF assms(1), of d] show ?thesis by simp
next
  case (Call r m p t)
  from assms(1) have "clock s < due" by (simp add: waiting_def)
  with Call assms waiting_sendRpcRequest [OF assms(1), of r m p t] show ?thesis by simp
next
  case (Response r)
  from assms(1) have "clock s < due" by (simp add: waiting_def)
  with Response assms waiting_handleResponse [OF assms(1), of r] show ?thesis by simp
next
  case (Connect k)
  from assms(1) have "clock s < due" by (simp add: waiting_def)
  with Connect waiting_onConnection [OF assms(1), of k] show ?thesis by simp
qed

lemma waiting_run:
  assumes "waiting (h, due, rid, ms) s" and "\<forall>ev \<in> set evs. \<not> mentions rid ev"
  shows "if clock s + elapsed evs < due then waiting (h, due, rid, ms) (run evs s)
         else timedOut (h, due, rid, ms) (run evs s)"
  using assms
proof (induction evs arbitrary: s)
  case Nil
  then show ?case by (simp add: run_def elapsed_def waiting_def)
next
  case (Cons ev evs)
  then have q: "\<not> mentions rid ev" and qs: "\<forall>ev \<in> set evs. \<not> mentions rid ev" by auto
  have r: "run (ev # evs) s = run evs (step ev s)" by (simp add: run_def)
  have el: "elapsed (ev # evs) = duration ev + elapsed evs" by (simp add: elapsed_def)
  show ?case
  proof (cases "clock s + duration ev < due")
    case True
    with waiting_step [OF Cons.prems(1) q] have "waiting (h, due, rid, ms) (step ev s)" by simp
    from Cons.IH [OF this qs] show ?thesis by (simp add: r el clock_step add.assoc)
  next
    case False
    with waiting_step [OF Cons.prems(1) q] have "timedOut (h, due, rid, ms) (step ev s)" by simp
    from timedOut_run [OF this qs] False show ?thesis by (simp add: r el)
  qed
qed

lemma wellformed_step: "wellformed s \<Longrightarrow> wellformed (step ev s)"
proof (cases ev)
  case (Elapse d)
  assume w: "wellformed s"
  let ?t = "clock s + d"
  let ?due = "filter (\<lambda>(h, due, _). due \<le> ?t) (timers s)"
  let ?s0 = "s\<lparr>clock := ?t, timers := filter (\<lambda>(h, due, _). \<not> due \<le> ?t) (timers s)\<rparr>"
  have e: "elapse d s = fold timerFires ?due ?s0" by (simp add: elapse_def Let_def)
  have "h \<notin> fst ` set ?due" if "calls s \<le> h" for h
    using w that by (fastforce simp: wellformed_def)
  then have "promises (elapse d s) h = None" if "calls s \<le> h" for h
    using w that by (simp add: e fold_timerFires_promises wellformed_def)
  moreover have "set (pendingRequests (elapse d s)) \<subseteq> set (pendingRequests s)"
    using fold_timerFires_pending_subset [of ?due ?s0] by (simp add: e)
  ultimately show ?thesis using w Elapse
    by (auto simp: wellformed_def e)
next
  case (Call r m p t)
  assume w: "wellformed s"
  then show ?thesis using Call
    by (cases "ws s")
       (auto simp: wellformed_def sendRpcRequest_def Let_def socket_send_def settle_def
          clearTimeout_def split: option.splits dest!: in_delete in_update_cases)
next
  case (Response r)
  assume w: "wellformed s"
  show ?thesis
  proof (cases "map_of (pendingRequests s) (resp_id r)")
    case None
    with w Response show ?thesis by (simp add: handleResponse_def)
  next
    case (Some h')
    then have "(resp_id r, h') \<in> set (pendingRequests s)" by (rule map_of_SomeD)
    with w have "h' < calls s" by (auto simp: wellformed_def)
    with w Some Response show ?thesis
      by (auto simp: wellformed_def handleResponse_def Let_def settle_def clearTimeout_def
          split: option.splits dest!: in_delete)
  qed
next
  case (Connect k)
  assume "wellformed s"
  then show ?thesis using Connect
    by (auto simp: wellformed_def onConnection_def Let_def split: option.splits)
qed

lemma wellformed_run: "wellformed s \<Longrightarrow> wellformed (run evs s)"
  unfolding run_def by (induction evs arbitrary: s) (simp_all add: wellformed_step)

lemma wellformed_newContext: "wellformed newContext"
  by (simp add: wellformed_def newContext_def)

lemma timers_step:
  assumes "t \<in> set (timers (step ev s))"
  shows "t \<in> set (timers s) \<or> mentions (fst (snd (snd t))) ev"
proof (cases ev)
  case (Elapse d)
  with assms show ?thesis by (auto simp: elapse_def Let_def)
next
  case (Call r m p ms')
  with assms show ?thesis
    by (cases "ws s")
       (auto simp: sendRpcRequest_def Let_def socket_send_def clearTimeout_def settle_def
          split: option.splits if_splits)
next
  case (Response r)
  with assms show ?thesis
    by (auto simp: handleResponse_def Let_def clearTimeout_def settle_def split: option.splits)
next
  case (Connect k)
  with assms show ?thesis
    by (auto simp: onConnection_def Let_def split: option.splits if_splits)
qed

lemma timers_run:
  assumes "t \<in> set (timers (run evs s))"
  shows "t \<in> set (timers s) \<or> (\<exists>ev \<in> set evs. mentions (fst (snd (snd t))) ev)"
  using assms unfolding run_def
proof (induction evs arbitrary: s)
  case Nil
  then show ?case by simp
next
  case (Cons ev evs)
  then have "t \<in> set (timers (step ev s)) \<or> (\<exists>ev \<in> set evs. mentions (fst (snd (snd t))) ev)"
    by simp
  with timers_step [of t ev s] show ?case by auto
qed

text \<open>
  C6. A call is made over a live connection, under an id not used before in the session,
  with a timeout the timer honours (the default 30000 ms among them). Whatever happens
  afterwards that does not mention its id -- time passing, other calls, responses to them,
  a new connection -- the call is pending and its promise unsettled as long as less than
  the timeout has passed; once the timeout has passed, its promise is rejected with code
  TIMEOUT, its id is no longer pending, and a response that carries the id changes nothing.
\<close>

theorem call_times_out:
  assumes hist: "s = run before newContext"
    and conn: "ws s = Some k"
    and range: "1 \<le> timeoutMs" "timeoutMs \<le> 2147483647"
    and fresh: "\<forall>ev \<in> set before. \<not> mentions rid ev"
    and sent: "sendRpcRequest rid meth params timeoutMs s = (h, s1)"
    and quiet: "\<forall>ev \<in> set after. \<not> mentions rid ev"
  shows "(elapsed after < timeoutMs \<longrightarrow>
            map_of (pendingRequests (run after s1)) rid = Some h \<and>
            promises (run after s1) h = None) \<and>
         (timeoutMs \<le> elapsed after \<longrightarrow>
            promises (run after s1) h = Some (Rejected (Some TIMEOUT) (TimedOutAfter timeoutMs)) \<and>
            map_of (pendingRequests (run after s1)) rid = None \<and>
            (\<forall>response. resp_id response = rid \<longrightarrow>
               handleResponse response (run after s1) = run after s1))"
proof -
  have wf: "wellformed s" using hist wellformed_run [OF wellformed_newContext] by simp
  have ids: "\<forall>t \<in> set (timers s). fst (snd (snd t)) \<noteq> rid"
  proof
    fix t
    assume "t \<in> set (timers s)"
    with hist have "t \<in> set (timers (run before newContext))" by simp
    from timers_run [OF this] have "\<exists>ev \<in> set before. mentions (fst (snd (snd t))) ev"
      by (simp add: newContext_def)
    with fresh show "fst (snd (snd t)) \<noteq> rid" by auto
  qed
  have dl: "timerDelay timeoutMs = timeoutMs" using range by (simp add: timerDelay_def)
  have h: "h = calls s" and s1: "s1 = snd (sendRpcRequest rid meth params timeoutMs s)"
    using sent sendRpcRequest_connected(1) [OF conn, of rid meth params timeoutMs] by auto
  have c1: "clock s1 = clock s"
    using sendRpcRequest_connected(5) [OF conn, of rid meth params timeoutMs] by (simp add: s1)
  have "calls s1 = calls s + 1"
    using conn by (simp add: s1 sendRpcRequest_def Let_def socket_send_def)
  then have w: "waiting (h, clock s + timeoutMs, rid, timeoutMs) s1"
    using sendRpcRequest_connected [OF conn, of rid meth params timeoutMs] wf ids range
    by (auto simp: waiting_def s1 h armed_def dl wellformed_def AList.update_conv'
        dest!: in_update_cases)
  from waiting_run [OF w quiet] c1
  have "if elapsed after < timeoutMs
        then waiting (h, clock s + timeoutMs, rid, timeoutMs) (run after s1)
        else timedOut (h, clock s + timeoutMs, rid, timeoutMs) (run after s1)" by simp
  then show ?thesis
    by (auto simp: waiting_def timedOut_def handleResponse_def)
qed

theorem call_times_out_witness:
  "(let s = run [Connect 1] newContext;
        (h, s1) = sendRpcRequest_default ''a'' ''snapshot'' [] s;
        busy = [Elapse 10000, Call ''b'' ''console'' [] 30000,
                Response \<lparr>resp_id = ''b'', resp_result = Some [], resp_error = None\<rparr>,
                Elapse 19999]
    in promises (run busy s1) h = None \<and>
       map_of (pendingRequests (run busy s1)) ''a'' = Some h \<and>
       promises (run (busy @ [Elapse 1]) s1) h =
         Some (Rejected (Some TIMEOUT) (TimedOutAfter 30000)) \<and>
       map_of (pendingRequests (run (busy @ [Elapse 1]) s1)) ''a'' = None \<and>
       handleResponse \<lparr>resp_id = ''a'', resp_result = Some [], resp_error = None\<rparr>
         (run (busy @ [Elapse 1]) s1) = run (busy @ [Elapse 1]) s1)"
proof -
  let ?s = "run [Connect 1] newContext"
  let ?busy = "[Elapse 10000, Call ''b'' ''console'' [] 30000,
                Response \<lparr>resp_id = ''b'', resp_result = Some [], resp_error = None\<rparr>,
                Elapse 19999]"
  obtain h s1 where sent: "sendRpcRequest ''a'' ''snapshot'' [] 30000 ?s = (h, s1)"
    by (cases "sendRpcRequest ''a'' ''snapshot'' [] 30000 ?s") auto
  have conn: "ws ?s = Some 1"
    by (simp add: run_def onConnection_def newContext_def hasWs_def)
  have range: "(1::nat) \<le> 30000" "(30000::nat) \<le> 2147483647" by simp_all
  have fresh: "\<forall>ev \<in> set [Connect 1]. \<not> mentions ''a'' ev" by simp
  have quiet: "\<forall>ev \<in> set ?busy. \<not> mentions ''a'' ev"
    "\<forall>ev \<in> set (?busy @ [Elapse 1]). \<not> mentions ''a'' ev" by simp_all
  have el: "elapsed ?busy = 29999" "elapsed (?busy @ [Elapse 1]) = 30000"
    by (simp_all add: elapsed_def)
  from call_times_out [OF refl conn range fresh sent quiet(1)] el(1)
  have "map_of (pendingRequests (run ?busy s1)) ''a'' = Some h \<and>
        promises (run ?busy s1) h = None" by simp
  moreover from call_times_out [OF refl conn range fresh sent quiet(2)] el(2)
  have "promises (run (?busy @ [Elapse 1]) s1) h =
          Some (Rejected (Some TIMEOUT) (TimedOutAfter 30000)) \<and>
        map_of (pendingRequests (run (?busy @ [Elapse 1]) s1)) ''a'' = None \<and>
        handleResponse \<lparr>resp_id = ''a'', resp_result = Some [], resp_error = None\<rparr>
          (run (?busy @ [Elapse 1]) s1) = run (?busy @ [Elapse 1]) s1" by simp
  ultimately show ?thesis using sent by (simp add: sendRpcRequest_default_def Let_def)
qed

section \<open>Resolving a selector\<close>

text \<open>
  \<open>getElementRole\<close> returns for every element whose \<open>type\<close> it can read; the loop of
  \<open>findByRole\<close> then collects exactly the elements that match, in document order; and
  \<open>findElement\<close> applies the rule of the specification to the candidates of its strategy.
\<close>

lemma getElementRole_returns:
  assumes "interface n = HTMLInputElement \<longrightarrow> type_property n \<noteq> None"
  shows "\<exists>r. getElementRole n = Inr r"
  using assms
  by (auto simp: getElementRole_def getInputRole_interactions_def Let_def split: option.splits)

lemma findByRole_loop_filter:
  assumes "\<forall>nd \<in> set nds. interface (nodes pg nd) = HTMLInputElement \<longrightarrow>
             type_property (nodes pg nd) \<noteq> None"
  shows "findByRole_loop pg nds rl nm els = Inr (els @ filter (matchesRole pg rl nm) nds)"
  using assms
proof (induction nds arbitrary: els)
  case Nil
  show ?case by simp
next
  case (Cons nd nds)
  then obtain r where r: "getElementRole (nodes pg nd) = Inr r"
    using getElementRole_returns [of "nodes pg nd"] by auto
  from Cons have ih: "\<And>els. findByRole_loop pg nds rl nm els =
      Inr (els @ filter (matchesRole pg rl nm) nds)" by simp
  show ?case
  proof (cases "matchesRole pg rl nm nd")
    case True
    then have "findByRole_loop pg (nd # nds) rl nm els =
        findByRole_loop pg nds rl nm (els @ [nd])"
      using r by (simp add: matchesRole_def)
    with True show ?thesis by (simp add: ih)
  next
    case False
    then have "findByRole_loop pg (nd # nds) rl nm els = findByRole_loop pg nds rl nm els"
      using r by (auto simp: matchesRole_def)
    with False show ?thesis by (simp add: ih)
  qed
qed

lemma findElement_of_candidates:
  assumes "candidates pg st selector = Inr els"
  shows "findElement pg st selector = exactly_one_or_fail selector els"
  using assms by (auto simp: findElement_def exactly_one_or_fail_def split: list.splits)

lemma firstWithRef_absent: "r \<notin> snd ` set entries \<Longrightarrow> firstWithRef entries r = None"
  by (induction entries r rule: firstWithRef.induct) auto

text \<open>
  Resolution by reference raises the TypeError of \<open>elementRefMap.entries()\<close>, also for the
  token an element has just been given.
\<close>

lemma findElement_by_ref_raises:
  "findElement pg (snd (getOrCreateRef el st)) (Ref (fst (getOrCreateRef el st))) =
     Inl (TypeError ''elementRefMap.entries is not a function'')"
  by (simp add: findElement_def findElementByRef_def WeakMap_entries_def)

text \<open>
  C1, as amended. A selector by pattern, when the selector engine accepts the pattern, and a
  selector by role, when the document has a body and the \<open>type\<close> of its input elements
  can be read, resolve by that one strategy to exactly one element or fail: with
  ELEMENT_NOT_FOUND when nothing matches, with ELEMENT_AMBIGUOUS when more than one element
  matches, never with a choice among several.
\<close>

theorem resolution_exactly_one_or_fail:
  "(querySelectorAll pg c = Inr els \<longrightarrow>
      findElement pg st (Css c) = exactly_one_or_fail (Css c) els) \<and>
   (body pg \<noteq> None \<and>
    (\<forall>nd \<in> set (treeWalker pg). interface (nodes pg nd) = HTMLInputElement \<longrightarrow>
       type_property (nodes pg nd) \<noteq> None) \<longrightarrow>
      findElement pg st (Role rl nm) =
        exactly_one_or_fail (Role rl nm) (filter (matchesRole pg rl nm) (treeWalker pg)))"
proof (intro conjI impI)
  assume "querySelectorAll pg c = Inr els"
  then have "candidates pg st (Css c) = Inr els" by simp
  then show "findElement pg st (Css c) = exactly_one_or_fail (Css c) els"
    by (rule findElement_of_candidates)
next
  assume a: "body pg \<noteq> None \<and>
    (\<forall>nd \<in> set (treeWalker pg). interface (nodes pg nd) = HTMLInputElement \<longrightarrow>
       type_property (nodes pg nd) \<noteq> None)"
  then have "findByRole_loop pg (treeWalker pg) rl nm [] =
      Inr ([] @ filter (matchesRole pg rl nm) (treeWalker pg))"
    by (intro findByRole_loop_filter) simp
  with a have "candidates pg st (Role rl nm) = Inr (filter (matchesRole pg rl nm) (treeWalker pg))"
    by (auto simp: findByRole_def)
  then show "findElement pg st (Role rl nm) =
        exactly_one_or_fail (Role rl nm) (filter (matchesRole pg rl nm) (treeWalker pg))"
    by (rule findElement_of_candidates)
qed

theorem resolution_witness:
  "findElement (examplePage [1]) emptyRefs (Css (str ''button'')) = Inr 1 \<and>
   findElement (examplePage [2, 1]) emptyRefs (Css (str ''button'')) =
     Inl (CodedError ELEMENT_AMBIGUOUS (MultipleElementsFound 2 (Css (str ''button'')))) \<and>
   findElement (examplePage [1]) emptyRefs (Role (str ''button'') (Some (str ''A''))) = Inr 1 \<and>
   findElement (examplePage [2, 1]) emptyRefs (Role (str ''button'') None) =
     Inl (CodedError ELEMENT_AMBIGUOUS (MultipleElementsFound 2 (Role (str ''button'') None))) \<and>
   findElement (examplePage [2, 1]) emptyRefs (Role (str ''link'') None) =
     Inl (CodedError ELEMENT_NOT_FOUND (NoElementFound (Role (str ''link'') None)))"
proof -
  have q1: "querySelectorAll (examplePage [1]) (str ''button'') = Inr [1]"
    and q2: "querySelectorAll (examplePage [2, 1]) (str ''button'') = Inr [2, 1]"
    by code_simp+
  have b: "body (examplePage cs) \<noteq> None \<and>
    (\<forall>nd \<in> set (treeWalker (examplePage cs)).
       interface (nodes (examplePage cs) nd) = HTMLInputElement \<longrightarrow>
       type_property (nodes (examplePage cs) nd) \<noteq> None)" for cs
    by (simp add: examplePage_def bodyNode_def buttonNode_def twoRolesNode_def blankNode_def)
  have f1: "filter (matchesRole (examplePage [1]) (str ''button'') (Some (str ''A'')))
              (treeWalker (examplePage [1])) = [1]"
    and f2: "filter (matchesRole (examplePage [2, 1]) (str ''button'') None)
              (treeWalker (examplePage [2, 1])) = [2, 1]"
    and f3: "filter (matchesRole (examplePage [2, 1]) (str ''link'') None)
              (treeWalker (examplePage [2, 1])) = []"
    by code_simp+
  have e1: "exactly_one_or_fail sel [x] = Inr x"
    and e2: "exactly_one_or_fail sel [x, y] =
      Inl (CodedError ELEMENT_AMBIGUOUS (MultipleElementsFound 2 sel))"
    and e3: "exactly_one_or_fail sel [] = Inl (CodedError ELEMENT_NOT_FOUND (NoElementFound sel))"
    for sel and x y :: handle
    by (simp_all add: exactly_one_or_fail_def)
  from resolution_exactly_one_or_fail [of "examplePage [1]" "str ''button''" "[1]" emptyRefs
      "str ''button''" "Some (str ''A'')"] q1 b [of "[1]"] f1
  have r1: "findElement (examplePage [1]) emptyRefs (Css (str ''button'')) = Inr 1"
    and r3: "findElement (examplePage [1]) emptyRefs (Role (str ''button'') (Some (str ''A''))) = Inr 1"
    by (simp_all add: e1)
  from resolution_exactly_one_or_fail [of "examplePage [2, 1]" "str ''button''" "[2, 1]" emptyRefs
      "str ''button''" None] q2 b [of "[2, 1]"] f2
  have r2: "findElement (examplePage [2, 1]) emptyRefs (Css (str ''button'')) =
     Inl (CodedError ELEMENT_AMBIGUOUS (MultipleElementsFound 2 (Css (str ''button''))))"
    and r4: "findElement (examplePage [2, 1]) emptyRefs (Role (str ''button'') None) =
     Inl (CodedError ELEMENT_AMBIGUOUS (MultipleElementsFound 2 (Role (str ''button'') None)))"
    by (simp_all add: e2)
  from resolution_exactly_one_or_fail [of "examplePage [2, 1]" "str ''button''" "[2, 1]" emptyRefs
      "str ''link''" None] q2 b [of "[2, 1]"] f3
  have r5: "findElement (examplePage [2, 1]) emptyRefs (Role (str ''link'') None) =
     Inl (CodedError ELEMENT_NOT_FOUND (NoElementFound (Role (str ''link'') None)))"
    by (simp add: e3)
  from r1 r2 r3 r4 r5 show ?thesis by simp
qed

text \<open>
  C1 as stated fails. A selector with the empty pattern neither resolves to an element nor
  fails with ELEMENT_NOT_FOUND or ELEMENT_AMBIGUOUS: the SyntaxError of the selector engine
  comes out of \<open>findElement\<close>. And a selector by the reference \<open>e1\<close>, on a table in which
  button 1 holds \<open>e1\<close>, does not resolve to the button: \<open>findElement\<close> raises the
  TypeError of \<open>elementRefMap.entries()\<close>.
\<close>

theorem resolution_counterexample:
  "findElement (examplePage [1]) emptyRefs (Css []) =
     Inl (SyntaxError ''The provided selector is empty.'') \<and>
   elementRefMap (snd (getOrCreateRef 1 emptyRefs)) 1 = Some (str ''e1'') \<and>
   findElement (examplePage [1]) (snd (getOrCreateRef 1 emptyRefs)) (Ref (str ''e1'')) =
     Inl (TypeError ''elementRefMap.entries is not a function'')"
proof -
  have "findElement (examplePage [1]) emptyRefs (Css []) =
     Inl (SyntaxError ''The provided selector is empty.'')"
    by code_simp
  moreover have "elementRefMap (snd (getOrCreateRef 1 emptyRefs)) 1 = Some (str ''e1'')"
    by (simp add: getOrCreateRef_def mintRef_def emptyRefs_def str_def Let_def)
  moreover have "findElement (examplePage [1]) (snd (getOrCreateRef 1 emptyRefs))
      (Ref (str ''e1'')) = Inl (TypeError ''elementRefMap.entries is not a function'')"
    by (simp add: findElement_def findElementByRef_def WeakMap_entries_def)
  ultimately show ?thesis by simp
qed

text \<open>
  C3. An interact request that clicks by the reference \<open>e99\<close>, in any state of the page and
  of the table, is answered with the code INTERNAL_ERROR and the message of the TypeError,
  not with ELEMENT_NOT_FOUND.
\<close>

theorem interact_unknown_ref_INTERNAL_ERROR:
  "handleMessage_INTERACT depth
     \<lparr>p_action = str ''click'', p_element = Some (Ref (str ''e99'')), p_text = t,
      p_key = k, p_value = v, p_snapshot = sn\<rparr> st pg =
   Some (Failure INTERNAL_ERROR (Text ''elementRefMap.entries is not a function''), pg, st)"
  by (simp add: handleMessage_INTERACT_def handleInteract_def performAction_def click_def
      findElement_def findElementByRef_def WeakMap_entries_def)

section \<open>Two elements, one token\<close>

text \<open>
  C2. A first snapshot exposes button 1 and gives it \<open>e1\<close>. The page then gets a new button
  2 before it. The second snapshot starts counting at zero again: button 2 is given \<open>e1\<close>,
  button 1 keeps \<open>e1\<close>, and the table holds the same token for two elements.
\<close>

theorem counter_reset_token_collision:
  "(case snapshotRows 3 (examplePage [1]) emptyRefs of
      Some (Inr rows1, st1) \<Rightarrow>
        map (\<lambda>(el, row). (el, ref row)) rows1 = [(1, str ''e1'')] \<and>
        (case snapshotRows 3 (examplePage [2, 1]) st1 of
           Some (Inr rows2, st2) \<Rightarrow>
             map (\<lambda>(el, row). (el, ref row)) rows2 = [(2, str ''e1''), (1, str ''e1'')] \<and>
             elementRefMap st2 1 = Some (str ''e1'') \<and> elementRefMap st2 2 = Some (str ''e1'')
         | _ \<Rightarrow> False)
    | _ \<Rightarrow> False)"
  by code_simp

section \<open>The two role computations\<close>

text \<open>
  C5. For \<open><div role="button link">\<close> the snapshot computes the role \<open>button\<close> and selector
  resolution the role \<open>button link\<close>: the snapshot lists the element as a button, and the
  selector for the role \<open>button\<close> finds no element.
\<close>

theorem explicit_role_tokens_differ:
  "getAriaRole twoRolesNode = Inr (Some (str ''button'')) \<and>
   getElementRole twoRolesNode = Inr (Some (str ''button link'')) \<and>
   (case snapshotRows 3 (examplePage [3]) emptyRefs of
      Some (Inr rows, st) \<Rightarrow>
        map (\<lambda>(el, row). (el, ref row, role row)) rows = [(3, str ''e1'', str ''button'')] \<and>
        findElement (examplePage [3]) st (Role (str ''button'') None) =
          Inl (CodedError ELEMENT_NOT_FOUND (NoElementFound (Role (str ''button'') None)))
    | _ \<Rightarrow> False)"
  by code_simp

section \<open>A second connection\<close>

text \<open>
  \<open>Context.close\<close> rejects every pending request whose promise is unsettled and empties
  the table; the connection handler leaves table, promises and timers as they are.
\<close>

lemma settle_keeps_settled:
  "promises s h = Some x \<Longrightarrow> promises (settle h' out s) h = Some x"
  by (auto simp: settle_def split: option.splits)

lemma rejectAll_settled:
  "promises s h = Some x \<Longrightarrow> promises (rejectAll al s) h = Some x"
proof (induction al arbitrary: s)
  case Nil
  then show ?case by simp
next
  case (Cons a al)
  obtain rid' h' where a: "a = (rid', h')" by (cases a)
  from Cons.prems have "promises (settle h' (Rejected None (Text ''Connection closed''))
      (clearTimeout h' s)) h = Some x"
    by (simp add: settle_keeps_settled)
  from Cons.IH [OF this] show ?case by (simp add: a)
qed

lemma rejectAll_rejects:
  assumes "(rid, h) \<in> set al" and "promises s h = None"
  shows "promises (rejectAll al s) h = Some (Rejected None (Text ''Connection closed''))"
  using assms
proof (induction al s rule: rejectAll.induct)
  case (1 s)
  then show ?case by simp
next
  case (2 rid' h' rest s)
  let ?s' = "settle h' (Rejected None (Text ''Connection closed'')) (clearTimeout h' s)"
  show ?case
  proof (cases "h' = h")
    case True
    with "2.prems" have "promises ?s' h = Some (Rejected None (Text ''Connection closed''))"
      by (simp add: settle_def clearTimeout_def)
    then show ?thesis by (simp add: rejectAll_settled)
  next
    case False
    with "2.prems" have "(rid, h) \<in> set rest" and "promises ?s' h = None"
      by (auto simp: settle_def clearTimeout_def split: option.splits)
    with "2.IH" show ?thesis by simp
  qed
qed

lemma close_rejects_pending:
  assumes "ws s = Some k" and "(rid, h) \<in> set (pendingRequests s)" and "promises s h = None"
  shows "promises (close s) h = Some (Rejected None (Text ''Connection closed'')) \<and>
         pendingRequests (close s) = []"
  using assms rejectAll_rejects [of rid h "pendingRequests s" s]
  by (simp add: close_def Let_def)

lemma onConnection_keeps_pending:
  "pendingRequests (onConnection k s) = pendingRequests s \<and>
   promises (onConnection k s) = promises s \<and> timers (onConnection k s) = timers s"
  by (simp add: onConnection_def Let_def split: option.splits)

text \<open>
  C4. A request is pending on socket 1 when socket 2 is accepted. Socket 1 is closed and
  socket 2 becomes the connection, but the request stays pending and its promise unsettled;
  it is rejected with TIMEOUT when its timer fires. \<open>Context.close\<close> on the same state
  rejects it with the message Connection closed.
\<close>

theorem second_connection_leaves_requests_pending:
  "(let (h, s1) = sendRpcRequest_default ''a'' ''snapshot'' [] (connectedContext 1);
        s2 = onConnection 2 s1
    in ws s2 = Some 2 \<and> \<not> socket_open s2 1 \<and>
       map_of (pendingRequests s2) ''a'' = Some h \<and> promises s2 h = None \<and>
       promises (elapse 30000 s2) h = Some (Rejected (Some TIMEOUT) (TimedOutAfter 30000)) \<and>
       promises (close s1) h = Some (Rejected None (Text ''Connection closed'')))"
  by (simp add: sendRpcRequest_default_def sendRpcRequest_def connectedContext_def run_def
      newContext_def onConnection_def hasWs_def socket_send_def Let_def elapse_def
      timerFires_def settle_def timerDelay_def close_def clearTimeout_def)

section \<open>Selecting on an element that is not a select\<close>

text \<open>
  C8. When the selector resolves to an element that is not a select element, \<open>select\<close>
  throws INVALID_REQUEST and leaves the page as it was; the interact request is answered
  with that code, page and reference table unchanged.
\<close>

theorem select_on_other_element_changes_nothing:
  assumes "findElement pg st selector = Inr el"
    and "interface (nodes pg el) \<noteq> HTMLSelectElement"
  shows "select selector v st pg =
           (Inl (CodedError INVALID_REQUEST (Text ''Select action requires a <select> element'')),
            pg) \<and>
         (v \<noteq> [] \<longrightarrow>
            handleMessage_INTERACT depth
              \<lparr>p_action = str ''select'', p_element = Some selector, p_text = t, p_key = k,
               p_value = Some v, p_snapshot = sn\<rparr> st pg =
            Some (Failure INVALID_REQUEST (Text ''Select action requires a <select> element''),
                  pg, st))"
  using assms
  by (simp add: select_def handleMessage_INTERACT_def handleInteract_def performAction_def
      str_def)

theorem select_on_other_element_witness:
  "findElement (examplePage [1]) emptyRefs (Css (str ''button'')) = Inr 1 \<and>
   interface (nodes (examplePage [1]) 1) \<noteq> HTMLSelectElement \<and>
   select (Css (str ''button'')) (str ''x'') emptyRefs (examplePage [1]) =
     (Inl (CodedError INVALID_REQUEST (Text ''Select action requires a <select> element'')),
      examplePage [1]) \<and>
   handleMessage_INTERACT 0
     \<lparr>p_action = str ''select'', p_element = Some (Css (str ''button'')), p_text = None,
      p_key = None, p_value = Some (str ''x''), p_snapshot = None\<rparr>
     emptyRefs (examplePage [1]) =
   Some (Failure INVALID_REQUEST (Text ''Select action requires a <select> element''),
         examplePage [1], emptyRefs)"
proof -
  have f: "findElement (examplePage [1]) emptyRefs (Css (str ''button'')) = Inr 1"
    by code_simp
  have i: "interface (nodes (examplePage [1]) 1) \<noteq> HTMLSelectElement"
    by code_simp
  have v: "str ''x'' \<noteq> []" by (simp add: str_def)
  from select_on_other_element_changes_nothing [OF f i, of "str ''x''" 0 None None None] f i v
  show ?thesis by simp
qed

section \<open>An empty parameter\<close>

text \<open>
  C10. An interact request of action \<open>type\<close> with the empty text, and one of action \<open>select\<close>
  with the empty value, gets the answer of the request without the parameter: the error that
  the parameter is required, with page and reference table unchanged.
\<close>

theorem empty_parameter_is_missing:
  "handleInteract depth (params\<lparr>p_action := str ''type'', p_text := Some []\<rparr>) st pg =
     Some (Inl (PlainError (Text ''Element selector and text required for type action'')), pg, st) \<and>
   handleInteract depth (params\<lparr>p_action := str ''type'', p_text := None\<rparr>) st pg =
     Some (Inl (PlainError (Text ''Element selector and text required for type action'')), pg, st) \<and>
   handleInteract depth (params\<lparr>p_action := str ''select'', p_value := Some []\<rparr>) st pg =
     Some (Inl (PlainError (Text ''Element selector and value required for select action'')), pg, st) \<and>
   handleInteract depth (params\<lparr>p_action := str ''select'', p_value := None\<rparr>) st pg =
     Some (Inl (PlainError (Text ''Element selector and value required for select action'')), pg, st)"
  by (simp add: handleInteract_def performAction_def str_def split: option.splits)

end
